theory Spec2Isabelle
  imports Main "HOL-Library.Char_ord" "HOL-Library.List_Lexorder" "HOL-Library.Multiset"
begin

section \<open>Strings and paths\<close>

text \<open>
  The builder's copy logic (package dockerfile, the second document of
  src/daemon/cluster/executor/container/health_test.go) is modelled for a Unix daemon:
  \<open>os.PathSeparator\<close> is the slash and \<open>filepath.FromSlash\<close> is the identity.
  Go strings are byte strings, here \<open>string\<close>.
\<close>

definition pathSeparator :: string where
  "pathSeparator = ''/''"

definition unnamedFilename :: string where
  "unnamedFilename = ''__unnamed__''"

definition fromSlash :: "string \<Rightarrow> string" where
  "fromSlash p = p"

text \<open>\<open>strings.HasSuffix\<close> and \<open>strings.TrimPrefix\<close>.\<close>

definition hasSuffix :: "string \<Rightarrow> string \<Rightarrow> bool" where
  "hasSuffix s suf = (length suf \<le> length s \<and> drop (length s - length suf) s = suf)"

definition hasPrefix :: "string \<Rightarrow> string \<Rightarrow> bool" where
  "hasPrefix s pre = (take (length pre) s = pre)"

definition trimPrefix :: "string \<Rightarrow> string \<Rightarrow> string" where
  "trimPrefix s pre = (if hasPrefix s pre then drop (length pre) s else s)"

text \<open>
  \<open>filepath.Base\<close> on Unix (no volume names): the empty path gives a dot, trailing
  slashes are stripped, the text after the last remaining slash is kept, and a path of
  slashes only gives a single slash.
\<close>

definition stripTrailingSlashes :: "string \<Rightarrow> string" where
  "stripTrailingSlashes p = rev (dropWhile (\<lambda>c. c = CHR ''/'') (rev p))"

definition lastElement :: "string \<Rightarrow> string" where
  "lastElement p = rev (takeWhile (\<lambda>c. c \<noteq> CHR ''/'') (rev p))"

definition Base :: "string \<Rightarrow> string" where
  "Base path =
     (if path = [] then ''.''
      else let p = lastElement (stripTrailingSlashes path)
           in if p = [] then ''/'' else p)"

section \<open>Errors\<close>

text \<open>
  Go errors as values. \<open>OsErrNotExist\<close> is the sentinel \<open>os.ErrNotExist\<close>,
  \<open>PathError op path e\<close> the struct \<open>os.PathError\<close>, \<open>Wrapf e msg\<close> the result
  of \<open>errors.Wrapf\<close>, \<open>Errorf msg\<close> an error made from a message
  (\<open>errors.Errorf\<close>, \<open>errors.New\<close>), and \<open>External msg\<close> any error handed back
  by a collaborator. \<open>errors.WithStack\<close> only attaches a stack trace and is the
  identity here.
\<close>

datatype error =
    OsErrNotExist
  | PathError string string error
  | Wrapf error string
  | Errorf string
  | External string

text \<open>\<open>errors.Is(err, os.ErrNotExist)\<close>: follow the chain of wrapped errors.\<close>

fun isNotExist :: "error \<Rightarrow> bool" where
  "isNotExist OsErrNotExist = True"
| "isNotExist (PathError _ _ e) = isNotExist e"
| "isNotExist (Wrapf e _) = isNotExist e"
| "isNotExist (Errorf _) = False"
| "isNotExist (External _) = False"

section \<open>Remote source: the file name of a download\<close>

text \<open>
  The part of \<open>http.Response\<close> the code reads: \<open>Header.Get\<close> (the empty string for
  an absent header) and the outcome of streaming the body.
\<close>

record response =
  header_Get :: "string \<Rightarrow> string"
  body :: "error + string"

text \<open>
  \<open>mime.ParseMediaType\<close> belongs to the Go library; the code uses only the parameter
  map of a successful parse (a missing key reads as the empty string), so the parser is a
  parameter giving an error or the parameters.
\<close>

type_synonym mediaTypeParser = "string \<Rightarrow> error + (string \<rightharpoonup> string)"

definition param :: "(string \<rightharpoonup> string) \<Rightarrow> string \<Rightarrow> string" where
  "param ps k = (case ps k of None \<Rightarrow> [] | Some v \<Rightarrow> v)"

definition getFilenameForDownload :: "mediaTypeParser \<Rightarrow> string \<Rightarrow> response \<Rightarrow> string" where
  "getFilenameForDownload parseMediaType path resp =
     (if path \<noteq> [] \<and> \<not> hasSuffix path ''/'' \<and> Base (fromSlash path) \<noteq> []
      then Base (fromSlash path)
      else let contentDisposition = header_Get resp ''Content-Disposition'' in
        if contentDisposition \<noteq> [] then
          (case parseMediaType contentDisposition of
             Inl err \<Rightarrow> []
           | Inr params \<Rightarrow>
               if param params ''filename'' \<noteq> [] \<and> \<not> hasSuffix (param params ''filename'') ''/''
                  \<and> Base (fromSlash (param params ''filename'')) \<noteq> []
               then Base (fromSlash (param params ''filename''))
               else [])
        else [])"

text \<open>
  The reading of the specification: the file name parameter itself is the derived name
  in the second case.
\<close>

definition specFilenameForDownload :: "mediaTypeParser \<Rightarrow> string \<Rightarrow> response \<Rightarrow> string" where
  "specFilenameForDownload parseMediaType path resp =
     (if path \<noteq> [] \<and> \<not> hasSuffix path ''/'' then Base path
      else case parseMediaType (header_Get resp ''Content-Disposition'') of
             Inl err \<Rightarrow> []
           | Inr params \<Rightarrow>
               if param params ''filename'' \<noteq> [] \<and> \<not> hasSuffix (param params ''filename'') ''/''
               then param params ''filename''
               else [])"

text \<open>
  A response carrying \<open>Content-Disposition: attachment; filename="dir/a.txt"\<close> and
  the parameters Go's parser gives for that header value.
\<close>

definition dispositionResponse :: response where
  "dispositionResponse =
     \<lparr> header_Get = (\<lambda>k. if k = ''Content-Disposition''
                          then ''attachment; filename=\"dir/a.txt\"'' else []),
       body = Inr ''data'' \<rparr>"

definition dispositionParser :: mediaTypeParser where
  "dispositionParser v =
     (if v = ''attachment; filename=\"dir/a.txt\"''
      then Inr [''filename'' \<mapsto> ''dir/a.txt'']
      else Inl (External ''mime: no media type''))"

section \<open>Data model of the copier\<close>

text \<open>
  \<open>builder.Source\<close> with the two helpers of package remotecontext that take a source:
  \<open>Root()\<close>, \<open>Hash(path)\<close> (Go's pair of a string and an error),
  \<open>remotecontext.StatAt\<close> (on success: whether the entry is a directory) and
  \<open>remotecontext.FullPath\<close>.
\<close>

record source =
  src_Root :: string
  src_Hash :: "string \<Rightarrow> string \<times> error option"
  src_StatAt :: "string \<Rightarrow> error + bool"
  src_FullPath :: "string \<Rightarrow> error + string"

datatype rwlayer = RWLayer (layer_Root: string)

text \<open>\<open>imageMount\<close>: the identity of the image and the outcome of \<open>NewRWLayer()\<close>.\<close>

record imageMount =
  ImageID :: string
  NewRWLayer :: "error + rwlayer"

type_synonym go_time = int

definition zeroTime :: go_time where
  "zeroTime = 0"

text \<open>
  The calls the code makes on its collaborators, in the order it makes them: layers
  created and released, directories removed, loads and stores of the path cache, calls
  of \<open>Source.Hash\<close> (root and path), and the steps of a download.
\<close>

datatype event =
    LayerCreated rwlayer
  | LayerReleased rwlayer
  | RemovedAll string
  | CacheLoad string
  | CacheStore string string
  | HashCall string string
  | TempDirCreated string
  | FileCreated string
  | FileWritten string string
  | Chtimes string go_time go_time

record copyInfo =
  ci_root :: string
  ci_path :: string
  ci_hash :: string
  ci_noDecompress :: bool

definition emptyCopyInfo :: copyInfo where
  "emptyCopyInfo = \<lparr> ci_root = [], ci_path = [], ci_hash = [], ci_noDecompress = False \<rparr>"

definition newCopyInfoFromSource :: "source \<Rightarrow> string \<Rightarrow> string \<Rightarrow> copyInfo" where
  "newCopyInfoFromSource src p h =
     \<lparr> ci_root = src_Root src, ci_path = p, ci_hash = h, ci_noDecompress = False \<rparr>"

record copyInstruction =
  cmdName :: string
  infos :: "copyInfo list"
  dest :: string
  chownStr :: string
  allowLocalDecompression :: bool
  preserveOwnership :: bool

type_synonym sourceDownloader = "string \<Rightarrow> event list \<times> (error + source \<times> string)"

text \<open>
  The copier. \<open>pathCache\<close> is the content of the cache object the copier points to;
  \<open>events\<close> is not a field of the Go struct: it records the calls on collaborators
  made so far. The \<open>platform\<close> field is never read by the code modelled and is left out.
\<close>

record copier =
  imageSource :: "imageMount option"
  source :: "source option"
  pathCache :: "string \<rightharpoonup> string"
  download :: sourceDownloader
  activeLayer :: "rwlayer option"
  tmpPaths :: "string list"
  events :: "event list"

text \<open>
  What the resolver needs from outside this file: helpers of the package that live in
  other files (\<open>validateCopySourcePath\<close>, \<open>containsWildcards\<close>,
  \<open>urlutil.IsURL\<close>, \<open>remotecontext.NewLazySource\<close>, the digest under
  \<open>hashStringSlice\<close>) and the Go library (\<open>filepath.WalkDir\<close> as the list of
  calls it makes on a callback that never stops it, each with a path and the error
  argument; \<open>filepath.Rel\<close>; \<open>filepath.Match\<close>, whose error the code drops).
\<close>

record env =
  validateCopySourcePath :: "imageMount option \<Rightarrow> string \<Rightarrow> error option"
  containsWildcards :: "string \<Rightarrow> bool"
  isURL :: "string \<Rightarrow> bool"
  newLazySource :: "string \<Rightarrow> error + source"
  digest :: "string \<Rightarrow> string"
  walkDir :: "string \<Rightarrow> (string \<times> error option) list"
  filepath_Rel :: "string \<Rightarrow> string \<Rightarrow> error + string"
  filepath_Match :: "string \<Rightarrow> string \<Rightarrow> bool"

definition logEvents :: "copier \<Rightarrow> event list \<Rightarrow> copier" where
  "logEvents c evs = c\<lparr> events := events c @ evs \<rparr>"

section \<open>Content hashing\<close>

text \<open>
  Modelled from the spec: \<open>hashStringSlice\<close> is defined in another file of the
  package. The specification describes its result as a digest over the concatenated list
  tagged with a kind prefix, in the shape of the file tag (\<open>"file:" + digest\<close>); the
  digest function is a parameter.
\<close>

definition hashStringSlice :: "(string \<Rightarrow> string) \<Rightarrow> string \<Rightarrow> string list \<Rightarrow> string" where
  "hashStringSlice dg prefix slice = prefix @ '':'' @ dg (concat slice)"

definition copyInfoForFile :: "source \<Rightarrow> string \<Rightarrow> event list \<times> (error + copyInfo)" where
  "copyInfoForFile src p =
     (case src_StatAt src p of
        Inl err \<Rightarrow>
          if isNotExist err then ([], Inl (PathError ''stat'' p OsErrNotExist))
          else ([], Inl err)
      | Inr isDir \<Rightarrow>
          if isDir then ([], Inr emptyCopyInfo)
          else (case src_Hash src p of
                  (h, Some err) \<Rightarrow> ([HashCall (src_Root src) p], Inl err)
                | (h, None) \<Rightarrow>
                    ([HashCall (src_Root src) p],
                     Inr (newCopyInfoFromSource src p (''file:'' @ h)))))"

text \<open>
  The callback of \<open>walkSource\<close> over the calls of \<open>filepath.WalkDir\<close>: an error
  argument or a failing \<open>filepath.Rel\<close> stops the walk, the entry whose path relative
  to the root of the source is a dot is skipped, an entry whose hash fails is passed
  over, and every other hash is appended.
\<close>

fun walkSourceFn ::
  "env \<Rightarrow> source \<Rightarrow> (string \<times> error option) list \<Rightarrow> event list \<Rightarrow> string list
   \<Rightarrow> event list \<times> (error + string list)" where
  "walkSourceFn e src [] evs subfiles = (evs, Inr subfiles)"
| "walkSourceFn e src ((p, err) # rest) evs subfiles =
     (case err of
        Some er \<Rightarrow> (evs, Inl er)
      | None \<Rightarrow>
          (case filepath_Rel e (src_Root src) p of
             Inl er \<Rightarrow> (evs, Inl er)
           | Inr rel \<Rightarrow>
               if rel = ''.'' then walkSourceFn e src rest evs subfiles
               else (case src_Hash src rel of
                       (h, Some er) \<Rightarrow>
                         walkSourceFn e src rest (evs @ [HashCall (src_Root src) rel]) subfiles
                     | (h, None) \<Rightarrow>
                         walkSourceFn e src rest (evs @ [HashCall (src_Root src) rel])
                           (subfiles @ [h]))))"

text \<open>\<open>sort.Strings\<close> orders byte strings lexicographically, as \<open>sort\<close> does here.\<close>

definition walkSource :: "env \<Rightarrow> source \<Rightarrow> string \<Rightarrow> event list \<times> (error + string list)" where
  "walkSource e src origPath =
     (case src_FullPath src origPath of
        Inl err \<Rightarrow> ([], Inl err)
      | Inr fp \<Rightarrow>
          (case walkSourceFn e src (walkDir e fp) [] [] of
             (evs, Inl err) \<Rightarrow> (evs, Inl err)
           | (evs, Inr subfiles) \<Rightarrow> (evs, Inr (sort subfiles))))"

text \<open>
  What a walk contributes, entry by entry: nothing where \<open>filepath.Rel\<close> fails, for
  the root of the source and for an entry whose hash fails, and the hash otherwise. A
  walk is accepted when no call carries an error and every path can be made relative.
\<close>

definition walkAccepted :: "env \<Rightarrow> source \<Rightarrow> (string \<times> error option) list \<Rightarrow> bool" where
  "walkAccepted e src es =
     list_all (\<lambda>ent. snd ent = None \<and> \<not> isl (filepath_Rel e (src_Root src) (fst ent))) es"

definition entryFingerprint :: "env \<Rightarrow> source \<Rightarrow> string \<times> error option \<Rightarrow> string list" where
  "entryFingerprint e src ent =
     (case filepath_Rel e (src_Root src) (fst ent) of
        Inl er \<Rightarrow> []
      | Inr rel \<Rightarrow>
          if rel = ''.'' then []
          else (case src_Hash src rel of (h, None) \<Rightarrow> [h] | (h, Some er) \<Rightarrow> []))"

definition memberFingerprints :: "env \<Rightarrow> source \<Rightarrow> (string \<times> error option) list \<Rightarrow> string list" where
  "memberFingerprints e src es = concat (map (entryFingerprint e src) es)"

text \<open>
  The reading of the specification: the fingerprints of every entry of the walked
  subtree but its root entry, sorted.
\<close>

definition specWalkSource :: "env \<Rightarrow> source \<Rightarrow> string \<Rightarrow> error + string list" where
  "specWalkSource e src origPath =
     (case src_FullPath src origPath of
        Inl err \<Rightarrow> Inl err
      | Inr fp \<Rightarrow>
          Inr (sort (memberFingerprints e src (filter (\<lambda>ent. fst ent \<noteq> fp) (walkDir e fp)))))"

section \<open>Single-path resolution\<close>

definition storeInPathCache :: "copier \<Rightarrow> imageMount option \<Rightarrow> string \<Rightarrow> string \<Rightarrow> copier" where
  "storeInPathCache c im p h =
     (case im of
        None \<Rightarrow> c
      | Some m \<Rightarrow>
          c\<lparr> pathCache := (pathCache c)(ImageID m @ p \<mapsto> h),
             events := events c @ [CacheStore (ImageID m @ p) h] \<rparr>)"

text \<open>
  Lines 282 to 296 of \<open>calcCopyInfo\<close>: the read-write layer is made on the first call
  for an image source, and the source becomes a lazy source rooted at the layer. When
  \<open>NewLazySource\<close> fails, what it returns beside the error (nil, by Go's convention)
  has already replaced the source.
\<close>

definition lazyLayer :: "env \<Rightarrow> copier \<Rightarrow> copier \<times> error option" where
  "lazyLayer e c =
     (case imageSource c of
        None \<Rightarrow> (c, None)
      | Some im \<Rightarrow>
          if activeLayer c \<noteq> None then (c, None)
          else (case NewRWLayer im of
                  Inl err \<Rightarrow> (c, Some err)
                | Inr rwLayer \<Rightarrow>
                    let c1 = c\<lparr> activeLayer := Some rwLayer,
                                 events := events c @ [LayerCreated rwLayer] \<rparr>
                    in (case newLazySource e (layer_Root rwLayer) of
                          Inl err \<Rightarrow>
                            (c1\<lparr> source := None \<rparr>,
                             Some (Wrapf err (''failed to create context for copy from ''
                                              @ layer_Root rwLayer)))
                        | Inr s \<Rightarrow> (c1\<lparr> source := Some s \<rparr>, None))))"

text \<open>Lines 303 to 305: the path in the daemon's form, without one leading separator
  and then without one leading dot and separator.\<close>

definition normalizePath :: "string \<Rightarrow> string" where
  "normalizePath origPath =
     trimPrefix (trimPrefix (fromSlash origPath) pathSeparator) (''.'' @ pathSeparator)"

text \<open>Lines 319 to 339: the file case, then the directory case.\<close>

definition hashPath :: "env \<Rightarrow> copier \<Rightarrow> source \<Rightarrow> string \<Rightarrow> copier \<times> (error + copyInfo list)" where
  "hashPath e c src origPath =
     (case copyInfoForFile src origPath of
        (evs, Inl err) \<Rightarrow>
          if imageSource c = None \<and> isNotExist err
          then (logEvents c evs,
                Inl (Wrapf err ''file not found in build context or excluded by .dockerignore''))
          else (logEvents c evs, Inl err)
      | (evs, Inr info) \<Rightarrow>
          if ci_hash info \<noteq> []
          then (storeInPathCache (logEvents c evs) (imageSource c) origPath (ci_hash info),
                Inr [info])
          else (case walkSource e src origPath of
                  (evs2, Inl err) \<Rightarrow> (logEvents c (evs @ evs2), Inl err)
                | (evs2, Inr subfiles) \<Rightarrow>
                    let h = hashStringSlice (digest e) ''dir'' subfiles
                    in (storeInPathCache (logEvents c (evs @ evs2)) (imageSource c) origPath h,
                        Inr [newCopyInfoFromSource src origPath h])))"

text \<open>Lines 312 to 317, then the hashing above: a cached copy is returned if one exists.\<close>

definition cachedOrHashed :: "env \<Rightarrow> copier \<Rightarrow> source \<Rightarrow> string \<Rightarrow> copier \<times> (error + copyInfo list)" where
  "cachedOrHashed e c src origPath =
     (case imageSource c of
        None \<Rightarrow> hashPath e c src origPath
      | Some im \<Rightarrow>
          if ImageID im \<noteq> [] then
            (let c1 = logEvents c [CacheLoad (ImageID im @ origPath)]
             in case pathCache c (ImageID im @ origPath) of
                  Some h \<Rightarrow> (c1, Inr [newCopyInfoFromSource src origPath h])
                | None \<Rightarrow> hashPath e c1 src origPath)
          else hashPath e c src origPath)"

text \<open>
  \<open>calcCopyInfo\<close> and \<open>copyWithWildcards\<close> call each other; \<open>wildcardWalk\<close> is
  the callback of \<open>copyWithWildcards\<close> run over the calls of \<open>filepath.WalkDir\<close>.
  The copier is a pointer receiver: what a call changes stays changed when it fails, so
  every function returns the copier next to its result. \<open>copyWithWildcards\<close> reads
  \<open>o.source.Root()\<close>, which panics on a nil source; \<open>calcCopyInfo\<close> calls it with a
  source only.
\<close>

function (sequential)
  calcCopyInfo :: "env \<Rightarrow> copier \<Rightarrow> string \<Rightarrow> bool \<Rightarrow> copier \<times> (error + copyInfo list)"
  and copyWithWildcards :: "env \<Rightarrow> copier \<Rightarrow> string \<Rightarrow> copier \<times> (error + copyInfo list)"
  and wildcardWalk ::
    "env \<Rightarrow> copier \<Rightarrow> string \<Rightarrow> string \<Rightarrow> (string \<times> error option) list \<Rightarrow> copyInfo list
     \<Rightarrow> copier \<times> (error + copyInfo list)"
where
  "calcCopyInfo e c origPath allowWildcards =
     (case validateCopySourcePath e (imageSource c) origPath of
        Some err \<Rightarrow> (c, Inl err)
      | None \<Rightarrow>
          (case lazyLayer e c of
             (c1, Some err) \<Rightarrow> (c1, Inl err)
           | (c1, None) \<Rightarrow>
               (case source c1 of
                  None \<Rightarrow> (c1, Inl (Errorf ''missing build context''))
                | Some src \<Rightarrow>
                    if allowWildcards \<and> containsWildcards e (normalizePath origPath)
                    then copyWithWildcards e c1 (normalizePath origPath)
                    else cachedOrHashed e c1 src (normalizePath origPath))))"
| "copyWithWildcards e c origPath =
     (case source c of
        None \<Rightarrow> (c, Inl (Errorf ''panic: nil pointer dereference''))
      | Some src \<Rightarrow> wildcardWalk e c origPath (src_Root src) (walkDir e (src_Root src)) [])"
| "wildcardWalk e c origPath root [] copyInfos = (c, Inr copyInfos)"
| "wildcardWalk e c origPath root ((p, err) # rest) copyInfos =
     (case err of
        Some er \<Rightarrow> (c, Inl er)
      | None \<Rightarrow>
          (case filepath_Rel e root p of
             Inl er \<Rightarrow> (c, Inl er)
           | Inr rel \<Rightarrow>
               if rel = ''.'' then wildcardWalk e c origPath root rest copyInfos
               else if \<not> filepath_Match e origPath rel
               then wildcardWalk e c origPath root rest copyInfos
               else (case calcCopyInfo e c rel False of
                       (c1, Inl er) \<Rightarrow> (c1, Inl er)
                     | (c1, Inr subInfos) \<Rightarrow>
                         wildcardWalk e c1 origPath root rest (copyInfos @ subInfos))))"
  by pat_completeness auto
termination
  by (relation "measures
        [\<lambda>x. case x of
                Inl (e, c, p, allow) \<Rightarrow> if allow then 2 else 0
              | Inr (Inl (e, c, p)) \<Rightarrow> 1
              | Inr (Inr (e, c, pat, root, walk, acc)) \<Rightarrow> 1,
         \<lambda>x. case x of
                Inl (e, c, p, allow) \<Rightarrow> 0
              | Inr (Inl (e, c, p)) \<Rightarrow> 1
              | Inr (Inr (e, c, pat, root, walk, acc)) \<Rightarrow> 0,
         \<lambda>x. case x of
                Inl (e, c, p, allow) \<Rightarrow> 0
              | Inr (Inl (e, c, p)) \<Rightarrow> 0
              | Inr (Inr (e, c, pat, root, walk, acc)) \<Rightarrow> length walk]")
     auto

declare calcCopyInfo.simps [simp del] copyWithWildcards.simps [simp del]

section \<open>Resolving the sources of an instruction\<close>

text \<open>
  \<open>getCopyInfoForSourcePath\<close> returns its list and its error together: on a failing
  hash of a download the list still holds the entry, so the result keeps both.
\<close>

definition getCopyInfoForSourcePath ::
  "env \<Rightarrow> copier \<Rightarrow> string \<Rightarrow> string \<Rightarrow> copier \<times> copyInfo list \<times> error option" where
  "getCopyInfoForSourcePath e c orig dst =
     (if \<not> isURL e orig then
        (case calcCopyInfo e c orig True of
           (c1, Inl err) \<Rightarrow> (c1, [], Some err)
         | (c1, Inr subinfos) \<Rightarrow> (c1, subinfos, None))
      else
        (case download c orig of
           (evs, Inl err) \<Rightarrow> (logEvents c evs, [], Some err)
         | (evs, Inr (remote, p)) \<Rightarrow>
             if p = [] \<and> hasSuffix dst ''/''
             then (logEvents c evs, [],
                   Some (Errorf (''cannot determine filename for source '' @ orig)))
             else
               (let p1 = (if p = [] then unnamedFilename else p);
                    c1 = (logEvents c evs)\<lparr> tmpPaths := tmpPaths c @ [src_Root remote] \<rparr>;
                    ci = (newCopyInfoFromSource remote p1 (fst (src_Hash remote p1)))
                           \<lparr> ci_noDecompress := True \<rparr>
                in (logEvents c1 [HashCall (src_Root remote) p1], [ci],
                    snd (src_Hash remote p1)))))"

fun sourcePathsLoop ::
  "env \<Rightarrow> copier \<Rightarrow> string list \<Rightarrow> string \<Rightarrow> copyInfo list \<Rightarrow> copier \<times> (error + copyInfo list)" where
  "sourcePathsLoop e c [] dst infs = (c, Inr infs)"
| "sourcePathsLoop e c (orig # rest) dst infs =
     (case getCopyInfoForSourcePath e c orig dst of
        (c1, subinfos, Some err) \<Rightarrow> (c1, Inl err)
      | (c1, subinfos, None) \<Rightarrow> sourcePathsLoop e c1 rest dst (infs @ subinfos))"

definition getCopyInfosForSourcePaths ::
  "env \<Rightarrow> copier \<Rightarrow> string list \<Rightarrow> string \<Rightarrow> copier \<times> (error + copyInfo list)" where
  "getCopyInfosForSourcePaths e c sources dst =
     (case sourcePathsLoop e c sources dst [] of
        (c1, Inl err) \<Rightarrow> (c1, Inl err)
      | (c1, Inr infs) \<Rightarrow>
          if length infs = 0 then (c1, Inl (Errorf ''no source files were specified''))
          else (c1, Inr infs))"

text \<open>\<open>instructions.SourcesAndDest\<close>, as far as the copier reads it.\<close>

record sourcesAndDest =
  SourcePaths :: "string list"
  DestPath :: string

definition newInstruction :: "string \<Rightarrow> string \<Rightarrow> copyInstruction" where
  "newInstruction name d =
     \<lparr> cmdName = name, infos = [], dest = d, chownStr = [],
       allowLocalDecompression = False, preserveOwnership = False \<rparr>"

text \<open>\<open>createCopyInstruction\<close> returns the instruction also when it returns an error.\<close>

definition createCopyInstruction ::
  "env \<Rightarrow> copier \<Rightarrow> sourcesAndDest \<Rightarrow> string \<Rightarrow> copier \<times> copyInstruction \<times> error option" where
  "createCopyInstruction e c sd name =
     (let inst = newInstruction name (fromSlash (DestPath sd))
      in case getCopyInfosForSourcePaths e c (SourcePaths sd) (dest inst) of
           (c1, Inl err) \<Rightarrow> (c1, inst, Some (Wrapf err (name @ '' failed'')))
         | (c1, Inr infs) \<Rightarrow>
             if length infs > 1 \<and> \<not> hasSuffix (dest inst) pathSeparator
             then (c1, inst,
                   Some (Errorf (''When using '' @ name
                      @ '' with more than one source file, the destination must be a directory and end with a /'')))
             else (c1, inst\<lparr> infos := infs \<rparr>, None))"

definition Cleanup :: "copier \<Rightarrow> copier" where
  "Cleanup c =
     c\<lparr> events := events c @ map RemovedAll (tmpPaths c)
                    @ (case activeLayer c of None \<Rightarrow> [] | Some l \<Rightarrow> [LayerReleased l]),
        tmpPaths := [],
        activeLayer := None \<rparr>"

section \<open>Downloading a remote source\<close>

definition errOnSourceDownload :: sourceDownloader where
  "errOnSourceDownload u = ([], Inl (Errorf ''source can't be a URL for COPY''))"

text \<open>
  What \<open>downloadSource\<close> calls: \<open>url.Parse\<close> (the path of the URL),
  \<open>remotecontext.GetWithStatusError\<close>, \<open>mime.ParseMediaType\<close>,
  \<open>longpath.MkdirTemp\<close>, \<open>os.OpenFile\<close>, \<open>http.ParseTime\<close>,
  \<open>system.Chtimes\<close>, \<open>remotecontext.NewLazySource\<close> and \<open>filepath.Join\<close>.
\<close>

record fetchEnv =
  url_Parse :: "string \<Rightarrow> error + string"
  getWithStatusError :: "string \<Rightarrow> error + response"
  parseMediaType :: mediaTypeParser
  mkdirTemp :: "error + string"
  openFile :: "string \<Rightarrow> error option"
  parseTime :: "string \<Rightarrow> error + go_time"
  system_Chtimes :: "string \<Rightarrow> go_time \<Rightarrow> go_time \<Rightarrow> error option"
  fetch_NewLazySource :: "string \<Rightarrow> error + source"
  filepath_Join :: "string \<Rightarrow> string \<Rightarrow> string"

text \<open>Lines 526 to 535: the time handed to \<open>system.Chtimes\<close>.\<close>

definition lastModifiedTime :: "fetchEnv \<Rightarrow> response \<Rightarrow> go_time" where
  "lastModifiedTime f resp =
     (let lastMod = header_Get resp ''Last-Modified''
      in if lastMod \<noteq> [] then
           (case parseTime f lastMod of Inr parsedMTime \<Rightarrow> parsedMTime | Inl err \<Rightarrow> zeroTime)
         else zeroTime)"

text \<open>
  \<open>downloadSource\<close>: once the temporary directory exists a failure removes it (the
  deferred function), which ends the events of a failed download.
\<close>

definition downloadSource :: "fetchEnv \<Rightarrow> sourceDownloader" where
  "downloadSource f srcURL =
     (case url_Parse f srcURL of
        Inl err \<Rightarrow> ([], Inl err)
      | Inr upath \<Rightarrow>
     (case getWithStatusError f srcURL of
        Inl err \<Rightarrow> ([], Inl err)
      | Inr resp \<Rightarrow>
     (let filename = getFilenameForDownload (parseMediaType f) upath resp in
      case mkdirTemp f of
        Inl err \<Rightarrow> ([], Inl err)
      | Inr tmpDir \<Rightarrow>
     (let tmpFileName =
            filepath_Join f tmpDir (if filename = [] then unnamedFilename else filename) in
      case openFile f tmpFileName of
        Some err \<Rightarrow> ([TempDirCreated tmpDir, RemovedAll tmpDir], Inl err)
      | None \<Rightarrow>
     (case body resp of
        Inl err \<Rightarrow>
          ([TempDirCreated tmpDir, FileCreated tmpFileName, RemovedAll tmpDir], Inl err)
      | Inr content \<Rightarrow>
     (let mTime = lastModifiedTime f resp;
          written = [TempDirCreated tmpDir, FileCreated tmpFileName,
                     FileWritten tmpFileName content] in
      case system_Chtimes f tmpFileName mTime mTime of
        Some err \<Rightarrow> (written @ [RemovedAll tmpDir], Inl err)
      | None \<Rightarrow>
     (case fetch_NewLazySource f tmpDir of
        Inl err \<Rightarrow>
          (written @ [Chtimes tmpFileName mTime mTime, RemovedAll tmpDir], Inl err)
      | Inr lc \<Rightarrow>
          (written @ [Chtimes tmpFileName mTime mTime], Inr (lc, filename)))))))))"

section \<open>Performing the copy\<close>

record identity =
  UID :: int
  GID :: int
  SID :: string

text \<open>\<open>copyFileOptions\<close> without the archiver, which is the collaborator below.\<close>

record copyFileOptions =
  decompress :: bool
  opt_identity :: "identity option"

text \<open>
  What \<open>performCopyForInfo\<close> calls: \<open>symlink.FollowSymlinkInScope\<close>,
  \<open>filepath.Join\<close>, \<open>os.Stat\<close> (on success: whether the entry is a directory),
  \<open>archive.IsArchivePath\<close> and \<open>os.Open\<close>.
\<close>

record execEnv =
  followSymlinkInScope :: "string \<Rightarrow> string \<Rightarrow> error + string"
  exec_Join :: "string \<Rightarrow> string \<Rightarrow> string"
  os_Stat :: "string \<Rightarrow> error + bool"
  isArchivePath :: "string \<Rightarrow> bool"
  os_Open :: "string \<Rightarrow> error option"

text \<open>
  The three ways \<open>performCopyForInfo\<close> ends: \<open>copyDirectory\<close>,
  \<open>archiver.Untar\<close> and \<open>copyFile\<close>, each with the paths it is given.
\<close>

datatype copyAction =
    CopyDirectory string string "identity option"
  | Untar string string
  | CopyFile string string "identity option"

definition fullPath :: "execEnv \<Rightarrow> copyInfo \<Rightarrow> error + string" where
  "fullPath x ci = followSymlinkInScope x (exec_Join x (ci_root ci) (ci_path ci)) (ci_root ci)"

definition isExistingDirectory :: "execEnv \<Rightarrow> string \<Rightarrow> error + bool" where
  "isExistingDirectory x p =
     (case os_Stat x p of
        Inl err \<Rightarrow> if isNotExist err then Inr False else Inl err
      | Inr isDir \<Rightarrow> Inr isDir)"

definition performCopyForInfo ::
  "execEnv \<Rightarrow> copyInfo \<Rightarrow> copyInfo \<Rightarrow> copyFileOptions \<Rightarrow> error + copyAction" where
  "performCopyForInfo x dst src options =
     (case fullPath x src of
        Inl err \<Rightarrow> Inl err
      | Inr srcPath \<Rightarrow>
     (case fullPath x dst of
        Inl err \<Rightarrow> Inl err
      | Inr destPath \<Rightarrow>
     (case os_Stat x srcPath of
        Inl err \<Rightarrow> Inl (Wrapf err ''source path not found'')
      | Inr srcIsDir \<Rightarrow>
          if srcIsDir then Inr (CopyDirectory srcPath destPath (opt_identity options))
          else if decompress options \<and> isArchivePath x srcPath \<and> \<not> ci_noDecompress src then
            (case os_Open x srcPath of
               Some err \<Rightarrow> Inl err
             | None \<Rightarrow> Inr (Untar srcPath destPath))
          else
            (case isExistingDirectory x destPath of
               Inl err \<Rightarrow> Inl err
             | Inr destExistsAsDir \<Rightarrow>
                 if destExistsAsDir \<or> hasSuffix (ci_path dst) pathSeparator
                 then Inr (CopyFile srcPath (exec_Join x destPath (Base (ci_path src)))
                             (opt_identity options))
                 else Inr (CopyFile srcPath destPath (opt_identity options))))))"

section \<open>The events of the read-write layer\<close>

text \<open>
  The layer events among the events of a copier, and what one step of resolution may
  do to them: keep the image source and the downloader, and either leave the active
  layer and the layer events as they are, or, for an image source without an active
  layer, create one layer and make it the active one.
\<close>

definition isLayerEvent :: "event \<Rightarrow> bool" where
  "isLayerEvent ev = (case ev of LayerCreated l \<Rightarrow> True | LayerReleased l \<Rightarrow> True | _ \<Rightarrow> False)"

definition layerEvents :: "event list \<Rightarrow> event list" where
  "layerEvents evs = filter isLayerEvent evs"

definition layerStep :: "copier \<Rightarrow> copier \<Rightarrow> bool" where
  "layerStep c c' =
     (imageSource c' = imageSource c \<and> download c' = download c
      \<and> (\<exists>evs. events c' = events c @ evs
            \<and> ((activeLayer c' = activeLayer c \<and> layerEvents evs = [])
               \<or> (imageSource c \<noteq> None \<and> activeLayer c = None
                   \<and> (\<exists>l. activeLayer c' = Some l \<and> layerEvents evs = [LayerCreated l])))))"

section \<open>A small world to run the code in\<close>

text \<open>
  A source rooted at \<open>root\<close> holding the file \<open>file\<close> and the directory \<open>dir\<close>
  with the files \<open>dir/a\<close> and \<open>dir/b\<close>. A path is looked up without a leading
  slash, as a source rooted in a directory does; the hash of an entry is \<open>sum-\<close> and its
  path.
\<close>

definition demoEntry :: "string \<Rightarrow> string" where
  "demoEntry p = trimPrefix p ''/''"

definition demoSource :: "string \<Rightarrow> source" where
  "demoSource root =
     \<lparr> src_Root = root,
       src_Hash = (\<lambda>p. (''sum-'' @ demoEntry p, None)),
       src_StatAt = (\<lambda>p. if demoEntry p = ''dir'' \<or> demoEntry p = [] then Inr True
                          else if demoEntry p \<in> {''file'', ''dir/a'', ''dir/b''} then Inr False
                          else Inl OsErrNotExist),
       src_FullPath = (\<lambda>p. Inr (if demoEntry p = [] then root else root @ ''/'' @ demoEntry p)) \<rparr>"

text \<open>\<open>filepath.Rel\<close> where the target is the base or lies below it.\<close>

definition demoRel :: "string \<Rightarrow> string \<Rightarrow> error + string" where
  "demoRel base targ =
     (if targ = base then Inr ''.''
      else if hasPrefix targ (base @ ''/'') then Inr (drop (length base + 1) targ)
      else Inl (External ''Rel: target is not below base''))"

definition demoWalk :: "string \<Rightarrow> (string \<times> error option) list" where
  "demoWalk fp =
     (if hasSuffix fp ''/dir''
      then [(fp, None), (fp @ ''/a'', None), (fp @ ''/b'', None)]
      else [(fp, None), (fp @ ''/dir'', None), (fp @ ''/dir/a'', None),
            (fp @ ''/dir/b'', None), (fp @ ''/file'', None)])"

text \<open>The same walk with the two files of \<open>dir\<close> met in the other order.\<close>

definition demoWalkRev :: "string \<Rightarrow> (string \<times> error option) list" where
  "demoWalkRev fp =
     (if hasSuffix fp ''/dir''
      then [(fp @ ''/b'', None), (fp @ ''/a'', None), (fp, None)]
      else [(fp @ ''/file'', None), (fp @ ''/dir/b'', None), (fp @ ''/dir/a'', None),
            (fp @ ''/dir'', None), (fp, None)])"

text \<open>
  No path is refused, a star marks a wildcard and matches every path of the directory
  \<open>dir\<close>, a URL starts with \<open>http://\<close>, and the digest of a text is the text.
\<close>

definition demoEnv :: env where
  "demoEnv =
     \<lparr> validateCopySourcePath = (\<lambda>im p. None),
       containsWildcards = (\<lambda>p. CHR ''*'' \<in> set p),
       isURL = (\<lambda>p. hasPrefix p ''http://''),
       newLazySource = (\<lambda>root. Inr (demoSource root)),
       digest = (\<lambda>s. s),
       walkDir = demoWalk,
       filepath_Rel = demoRel,
       filepath_Match = (\<lambda>pat name. pat = ''dir/*'' \<and> hasPrefix name ''dir/'') \<rparr>"

definition demoLayer :: rwlayer where
  "demoLayer = RWLayer ''/layer''"

text \<open>A copier on the local build context, and copiers on an image with and without
  an identity.\<close>

definition contextCopier :: copier where
  "contextCopier =
     \<lparr> imageSource = None, source = Some (demoSource ''/ctx''), pathCache = Map.empty,
       download = errOnSourceDownload, activeLayer = None, tmpPaths = [], events = [] \<rparr>"

definition imageCopier :: "string \<Rightarrow> copier" where
  "imageCopier ident =
     \<lparr> imageSource = Some \<lparr> ImageID = ident, NewRWLayer = Inr demoLayer \<rparr>,
       source = None, pathCache = Map.empty,
       download = errOnSourceDownload, activeLayer = None, tmpPaths = [], events = [] \<rparr>"

text \<open>A server answering every request with \<open>resp\<close>, the path of every URL being
  \<open>upath\<close>; the time of a \<open>Last-Modified\<close> header is read as 784111777 when the
  header is the date of RFC 7231's example.\<close>

definition demoFetch :: "string \<Rightarrow> response \<Rightarrow> fetchEnv" where
  "demoFetch upath resp =
     \<lparr> url_Parse = (\<lambda>u. Inr upath),
       getWithStatusError = (\<lambda>u. Inr resp),
       parseMediaType = dispositionParser,
       mkdirTemp = Inr ''/tmp/docker-remote1'',
       openFile = (\<lambda>p. None),
       parseTime = (\<lambda>t. if t = ''Sun, 06 Nov 1994 08:49:37 GMT'' then Inr 784111777
                         else Inl (External ''parse error'')),
       system_Chtimes = (\<lambda>p a m. None),
       fetch_NewLazySource = (\<lambda>root. Inr (demoSource root)),
       filepath_Join = (\<lambda>d n. d @ ''/'' @ n) \<rparr>"

definition plainResponse :: "string \<Rightarrow> response" where
  "plainResponse lastMod =
     \<lparr> header_Get = (\<lambda>k. if k = ''Last-Modified'' then lastMod else []),
       body = Inr ''data'' \<rparr>"

definition downloadCopier :: "fetchEnv \<Rightarrow> copier" where
  "downloadCopier f = contextCopier\<lparr> download := downloadSource f \<rparr>"

text \<open>A file system where every path is a file and every file an archive.\<close>

definition demoExec :: execEnv where
  "demoExec =
     \<lparr> followSymlinkInScope = (\<lambda>p root. Inr p),
       exec_Join = (\<lambda>d n. d @ ''/'' @ n),
       os_Stat = (\<lambda>p. Inr False),
       isArchivePath = (\<lambda>p. True),
       os_Open = (\<lambda>p. None) \<rparr>"

text \<open>Inputs used to run the code: a downloaded archive and a destination directory.\<close>

definition archiveInfo :: copyInfo where
  "archiveInfo = \<lparr> ci_root = ''/tmp/docker-remote1'', ci_path = ''a.tar'',
                   ci_hash = ''sum-a.tar'', ci_noDecompress = True \<rparr>"

definition destInfo :: copyInfo where
  "destInfo = \<lparr> ci_root = ''/layer'', ci_path = ''dest/'', ci_hash = [],
                ci_noDecompress = False \<rparr>"

definition unnamedEvents :: "event list" where
  "unnamedEvents =
     [TempDirCreated ''/tmp/docker-remote1'', FileCreated ''/tmp/docker-remote1/__unnamed__'',
      FileWritten ''/tmp/docker-remote1/__unnamed__'' ''data'',
      Chtimes ''/tmp/docker-remote1/__unnamed__'' zeroTime zeroTime]"

text \<open>What the local build context resolves \<open>file\<close> and \<open>dir\<close> to.\<close>

definition fileInfo :: copyInfo where
  "fileInfo = \<lparr> ci_root = ''/ctx'', ci_path = ''file'', ci_hash = ''file:sum-file'',
                ci_noDecompress = False \<rparr>"

definition dirInfo :: copyInfo where
  "dirInfo = \<lparr> ci_root = ''/ctx'', ci_path = ''dir'',
               ci_hash = ''dir:sum-dirsum-dir/asum-dir/b'', ci_noDecompress = False \<rparr>"

definition twoSources :: "string \<Rightarrow> sourcesAndDest" where
  "twoSources d = \<lparr> SourcePaths = [''file'', ''dir''], DestPath = d \<rparr>"

definition oneSource :: "string \<Rightarrow> sourcesAndDest" where
  "oneSource d = \<lparr> SourcePaths = [''file''], DestPath = d \<rparr>"

definition resolvedContext :: "event list \<Rightarrow> copier" where
  "resolvedContext evs = contextCopier\<lparr> events := evs \<rparr>"

text \<open>The world with the other order of enumeration.\<close>

definition reversedEnv :: env where
  "reversedEnv = demoEnv\<lparr> walkDir := demoWalkRev \<rparr>"

text \<open>One instruction with a wildcard, run on a copier.\<close>

definition wildcardRequest :: sourcesAndDest where
  "wildcardRequest = \<lparr> SourcePaths = [''dir/*''], DestPath = ''/dest/'' \<rparr>"

definition wildcardSession :: "copier \<Rightarrow> copier" where
  "wildcardSession c0 =
     foldl (\<lambda>c (sd, name). fst (createCopyInstruction demoEnv c sd name)) c0
       [(wildcardRequest, ''COPY'')]"

text \<open>One instruction with a URL source, run on a copier that downloads.\<close>

definition downloadRequest :: sourcesAndDest where
  "downloadRequest = \<lparr> SourcePaths = [''http://x/a.tar''], DestPath = ''/dest/'' \<rparr>"

definition downloadSession :: copier where
  "downloadSession =
     foldl (\<lambda>c (sd, name). fst (createCopyInstruction demoEnv c sd name))
       (downloadCopier (demoFetch ''/a.tar'' (plainResponse []))) [(downloadRequest, ''ADD'')]"

text \<open>
  Two sources for one destination: a download with a file of the build context, and two
  files of an image. A copier that has resolved \<open>file\<close> against an image once.
\<close>

definition mixedRequest :: "string \<Rightarrow> sourcesAndDest" where
  "mixedRequest d = \<lparr> SourcePaths = [''http://x/a.tar'', ''file''], DestPath = d \<rparr>"

definition layerRequest :: "string \<Rightarrow> sourcesAndDest" where
  "layerRequest d = \<lparr> SourcePaths = [''dir/a'', ''dir/b''], DestPath = d \<rparr>"

definition cachedCopier :: copier where
  "cachedCopier = fst (calcCopyInfo demoEnv (imageCopier ''sha256:abc'') ''file'' False)"

section \<open>Facts about the helpers\<close>

lemmas path_defs = pathSeparator_def unnamedFilename_def fromSlash_def hasSuffix_def hasPrefix_def
  trimPrefix_def stripTrailingSlashes_def lastElement_def Base_def param_def normalizePath_def

lemmas demo_defs = demoEntry_def demoSource_def demoRel_def demoWalk_def demoWalkRev_def
  demoEnv_def demoLayer_def contextCopier_def imageCopier_def demoFetch_def plainResponse_def
  downloadCopier_def demoExec_def dispositionParser_def dispositionResponse_def
  archiveInfo_def destInfo_def unnamedEvents_def fileInfo_def dirInfo_def twoSources_def
  oneSource_def resolvedContext_def reversedEnv_def wildcardRequest_def wildcardSession_def
  downloadRequest_def downloadSession_def mixedRequest_def layerRequest_def

lemmas resolve_defs = logEvents_def emptyCopyInfo_def newCopyInfoFromSource_def hashStringSlice_def
  copyInfoForFile_def walkSource_def memberFingerprints_def entryFingerprint_def
  specWalkSource_def storeInPathCache_def lazyLayer_def hashPath_def
  cachedOrHashed_def getCopyInfoForSourcePath_def getCopyInfosForSourcePaths_def
  newInstruction_def createCopyInstruction_def Cleanup_def calcCopyInfo.simps
  copyWithWildcards.simps

lemmas fetch_defs = errOnSourceDownload_def getFilenameForDownload_def lastModifiedTime_def
  zeroTime_def downloadSource_def

lemmas exec_defs = fullPath_def isExistingDirectory_def performCopyForInfo_def

lemma Base_nonempty: "Base p \<noteq> []"
  by (simp add: Base_def Let_def)

section \<open>The file name of a download\<close>

text \<open>
  C5, as the code has it. The derived file name is the base of the URL path when that
  path is not empty and does not end with a slash; otherwise, when the response has a
  \<open>Content-Disposition\<close> header that parses and whose \<open>filename\<close> parameter is not
  empty and does not end with a slash, it is the base name of that parameter (its last
  path element, not the parameter as sent); otherwise it is empty.
\<close>

theorem getFilenameForDownload_cases:
  "getFilenameForDownload pm p resp =
     (if p \<noteq> [] \<and> \<not> hasSuffix p ''/'' then Base p
      else if header_Get resp ''Content-Disposition'' = [] then []
      else case pm (header_Get resp ''Content-Disposition'') of
             Inl err \<Rightarrow> []
           | Inr params \<Rightarrow>
               if param params ''filename'' \<noteq> [] \<and> \<not> hasSuffix (param params ''filename'') ''/''
               then Base (param params ''filename'')
               else [])"
  by (simp add: getFilenameForDownload_def fromSlash_def Base_nonempty Let_def split: sum.splits)

text \<open>
  C5 as stated fails where the \<open>filename\<close> parameter holds a slash inside: for the URL
  path \<open>/\<close> and the header \<open>attachment; filename="dir/a.txt"\<close> the code derives
  \<open>a.txt\<close>, while the parameter is \<open>dir/a.txt\<close>.
\<close>

theorem filename_parameter_counterexample:
  "getFilenameForDownload dispositionParser ''/'' dispositionResponse = ''a.txt''
   \<and> specFilenameForDownload dispositionParser ''/'' dispositionResponse = ''dir/a.txt''"
  by (simp add: getFilenameForDownload_def specFilenameForDownload_def dispositionParser_def
      dispositionResponse_def fromSlash_def hasSuffix_def param_def Base_def
      stripTrailingSlashes_def lastElement_def Let_def)

section \<open>Downloads are never extracted\<close>

text \<open>
  C4. Every entry resolved from a URL has its \<open>noDecompress\<close> flag set, and for a
  source with that flag \<open>performCopyForInfo\<close> never ends in \<open>Untar\<close>, whatever the
  options and the archive test say: it does what it does with decompression switched
  off, and when the source is a file and the copy goes ahead, it is a plain file copy.
\<close>

theorem url_sources_never_extracted:
  "(isURL e orig \<longrightarrow>
      (\<forall>ci \<in> set (fst (snd (getCopyInfoForSourcePath e c orig d))). ci_noDecompress ci))
   \<and> (ci_noDecompress src \<longrightarrow>
        (\<forall>a b. performCopyForInfo x dst src options \<noteq> Inr (Untar a b))
        \<and> performCopyForInfo x dst src options
            = performCopyForInfo x dst src (options\<lparr> decompress := False \<rparr>)
        \<and> (\<forall>srcPath act.
              fullPath x src = Inr srcPath \<and> os_Stat x srcPath = Inr False
              \<and> performCopyForInfo x dst src options = Inr act
              \<longrightarrow> (\<exists>target. act = CopyFile srcPath target (opt_identity options))))"
proof (intro conjI impI)
  assume "isURL e orig"
  then show "\<forall>ci \<in> set (fst (snd (getCopyInfoForSourcePath e c orig d))). ci_noDecompress ci"
    by (auto simp: getCopyInfoForSourcePath_def Let_def split: prod.splits sum.splits)
next
  assume "ci_noDecompress src"
  then show "\<forall>a b. performCopyForInfo x dst src options \<noteq> Inr (Untar a b)"
    by (auto simp: performCopyForInfo_def split: sum.splits option.splits)
next
  assume "ci_noDecompress src"
  then show "performCopyForInfo x dst src options
            = performCopyForInfo x dst src (options\<lparr> decompress := False \<rparr>)"
    by (simp add: performCopyForInfo_def split: sum.splits)
next
  assume nd: "ci_noDecompress src"
  show "\<forall>srcPath act.
              fullPath x src = Inr srcPath \<and> os_Stat x srcPath = Inr False
              \<and> performCopyForInfo x dst src options = Inr act
              \<longrightarrow> (\<exists>target. act = CopyFile srcPath target (opt_identity options))"
    using nd by (auto simp: performCopyForInfo_def split: sum.splits option.splits if_splits)
qed

text \<open>
  C4 at work: the archive \<open>a.tar\<close> fetched from a URL, with decompression asked for
  and the file recognised as an archive, is copied as a file.
\<close>

theorem url_sources_never_extracted_witness:
  "isURL demoEnv ''http://x/a.tar''
   \<and> fst (snd (getCopyInfoForSourcePath demoEnv
         (downloadCopier (demoFetch ''/a.tar'' (plainResponse []))) ''http://x/a.tar'' ''/dest/''))
       = [archiveInfo]
   \<and> ci_noDecompress archiveInfo
   \<and> decompress \<lparr> decompress = True, opt_identity = None \<rparr>
   \<and> isArchivePath demoExec ''/tmp/docker-remote1/a.tar''
   \<and> performCopyForInfo demoExec destInfo archiveInfo \<lparr> decompress = True, opt_identity = None \<rparr>
       = Inr (CopyFile ''/tmp/docker-remote1/a.tar'' ''/layer/dest//a.tar'' None)"
  using url_sources_never_extracted [of demoEnv "''http://x/a.tar''"
      "downloadCopier (demoFetch ''/a.tar'' (plainResponse []))" "''/dest/''" archiveInfo
      demoExec destInfo "\<lparr> decompress = True, opt_identity = None \<rparr>"]
  by (simp add: resolve_defs fetch_defs path_defs demo_defs exec_defs Let_def)

section \<open>The times of a downloaded file\<close>

text \<open>
  C6. A download that completes has made exactly one call of \<open>system.Chtimes\<close>, on the
  file it wrote the body to, with the same time for access and modification: the parsed
  \<open>Last-Modified\<close> header when the header is present and parses, the zero time when it
  is absent or does not parse. No clock is read.
\<close>

theorem download_times_from_last_modified:
  assumes "downloadSource f srcURL = (evs, Inr (remote, name))"
    and "getWithStatusError f srcURL = Inr resp"
  shows "\<exists>tmpDir file content.
           mkdirTemp f = Inr tmpDir \<and> body resp = Inr content
           \<and> file = filepath_Join f tmpDir (if name = [] then unnamedFilename else name)
           \<and> evs = [TempDirCreated tmpDir, FileCreated file, FileWritten file content,
                  Chtimes file
                    (if header_Get resp ''Last-Modified'' = [] then zeroTime
                     else case parseTime f (header_Get resp ''Last-Modified'') of
                            Inr parsed \<Rightarrow> parsed | Inl err \<Rightarrow> zeroTime)
                    (if header_Get resp ''Last-Modified'' = [] then zeroTime
                     else case parseTime f (header_Get resp ''Last-Modified'') of
                            Inr parsed \<Rightarrow> parsed | Inl err \<Rightarrow> zeroTime)]"
  using assms
  by (auto simp: downloadSource_def lastModifiedTime_def Let_def
           split: sum.splits option.splits if_splits)

text \<open>
  C6 at work: a response dated \<open>Sun, 06 Nov 1994 08:49:37 GMT\<close> gives that time, and a
  response whose date does not parse gives the zero time.
\<close>

theorem download_times_from_last_modified_witness:
  "downloadSource (demoFetch ''/a.tar'' (plainResponse ''Sun, 06 Nov 1994 08:49:37 GMT''))
       ''http://x/a.tar''
     = ([TempDirCreated ''/tmp/docker-remote1'', FileCreated ''/tmp/docker-remote1/a.tar'',
         FileWritten ''/tmp/docker-remote1/a.tar'' ''data'',
         Chtimes ''/tmp/docker-remote1/a.tar'' 784111777 784111777],
        Inr (demoSource ''/tmp/docker-remote1'', ''a.tar''))
   \<and> downloadSource (demoFetch ''/a.tar'' (plainResponse ''yesterday'')) ''http://x/a.tar''
     = ([TempDirCreated ''/tmp/docker-remote1'', FileCreated ''/tmp/docker-remote1/a.tar'',
         FileWritten ''/tmp/docker-remote1/a.tar'' ''data'',
         Chtimes ''/tmp/docker-remote1/a.tar'' zeroTime zeroTime],
        Inr (demoSource ''/tmp/docker-remote1'', ''a.tar''))"
  using download_times_from_last_modified
    [of "demoFetch ''/a.tar'' (plainResponse ''Sun, 06 Nov 1994 08:49:37 GMT'')" "''http://x/a.tar''"
        "[TempDirCreated ''/tmp/docker-remote1'', FileCreated ''/tmp/docker-remote1/a.tar'',
         FileWritten ''/tmp/docker-remote1/a.tar'' ''data'',
         Chtimes ''/tmp/docker-remote1/a.tar'' 784111777 784111777]"
        "demoSource ''/tmp/docker-remote1''" "''a.tar''"
        "plainResponse ''Sun, 06 Nov 1994 08:49:37 GMT''"]
  by (simp add: fetch_defs path_defs demo_defs Let_def)

section \<open>A download without a file name\<close>

text \<open>
  C7. When the download of a URL source derives the empty file name: with a
  destination ending in a slash, resolution fails with the error
  \<open>cannot determine filename for source\<close> and the URL; with any other destination it
  returns one entry of the downloaded source under the name \<open>__unnamed__\<close>, which is
  the name of the file \<open>downloadSource\<close> created in its temporary directory, with the
  hash of that file (and the error of hashing it, if any).
\<close>

theorem unnamed_download:
  assumes "isURL e orig"
    and "download c = downloadSource f"
    and "downloadSource f orig = (evs, Inr (remote, []))"
  shows "(hasSuffix dst ''/'' \<longrightarrow>
            getCopyInfoForSourcePath e c orig dst
              = (logEvents c evs, [],
                 Some (Errorf (''cannot determine filename for source '' @ orig))))
       \<and> (\<not> hasSuffix dst ''/'' \<longrightarrow>
            (\<exists>c1. getCopyInfoForSourcePath e c orig dst
                    = (c1,
                       [\<lparr> ci_root = src_Root remote, ci_path = ''__unnamed__'',
                          ci_hash = fst (src_Hash remote ''__unnamed__''),
                          ci_noDecompress = True \<rparr>],
                       snd (src_Hash remote ''__unnamed__''))
                  \<and> tmpPaths c1 = tmpPaths c @ [src_Root remote]))
       \<and> (\<exists>tmpDir. mkdirTemp f = Inr tmpDir
              \<and> FileCreated (filepath_Join f tmpDir ''__unnamed__'') \<in> set evs)"
proof (intro conjI impI)
  assume "hasSuffix dst ''/''"
  with assms show "getCopyInfoForSourcePath e c orig dst
              = (logEvents c evs, [],
                 Some (Errorf (''cannot determine filename for source '' @ orig)))"
    by (simp add: getCopyInfoForSourcePath_def)
next
  assume "\<not> hasSuffix dst ''/''"
  with assms show "\<exists>c1. getCopyInfoForSourcePath e c orig dst
                    = (c1,
                       [\<lparr> ci_root = src_Root remote, ci_path = ''__unnamed__'',
                          ci_hash = fst (src_Hash remote ''__unnamed__''),
                          ci_noDecompress = True \<rparr>],
                       snd (src_Hash remote ''__unnamed__''))
                  \<and> tmpPaths c1 = tmpPaths c @ [src_Root remote]"
    by (simp add: getCopyInfoForSourcePath_def Let_def unnamedFilename_def
        newCopyInfoFromSource_def logEvents_def)
next
  from assms(3) show "\<exists>tmpDir. mkdirTemp f = Inr tmpDir
              \<and> FileCreated (filepath_Join f tmpDir ''__unnamed__'') \<in> set evs"
    by (auto simp: downloadSource_def Let_def unnamedFilename_def
           split: sum.splits option.splits if_splits)
qed

text \<open>
  C7 at work: the URL \<open>http://x/\<close> answered without a \<open>Content-Disposition\<close> header
  fails for the destination \<open>/dest/\<close> and resolves to \<open>__unnamed__\<close> for \<open>/dest\<close>.
\<close>

theorem unnamed_download_witness:
  "isURL demoEnv ''http://x/''
   \<and> downloadSource (demoFetch ''/'' (plainResponse [])) ''http://x/''
       = (unnamedEvents, Inr (demoSource ''/tmp/docker-remote1'', []))
   \<and> hasSuffix ''/dest/'' ''/''
   \<and> getCopyInfoForSourcePath demoEnv (downloadCopier (demoFetch ''/'' (plainResponse [])))
         ''http://x/'' ''/dest/''
       = (logEvents (downloadCopier (demoFetch ''/'' (plainResponse []))) unnamedEvents, [],
          Some (Errorf ''cannot determine filename for source http://x/''))
   \<and> \<not> hasSuffix ''/dest'' ''/''
   \<and> snd (getCopyInfoForSourcePath demoEnv (downloadCopier (demoFetch ''/'' (plainResponse [])))
         ''http://x/'' ''/dest'')
       = ([\<lparr> ci_root = ''/tmp/docker-remote1'', ci_path = ''__unnamed__'',
             ci_hash = ''sum-__unnamed__'', ci_noDecompress = True \<rparr>], None)
   \<and> FileCreated ''/tmp/docker-remote1/__unnamed__'' \<in> set unnamedEvents"
  using unnamed_download [of demoEnv "''http://x/''"
      "downloadCopier (demoFetch ''/'' (plainResponse []))" "demoFetch ''/'' (plainResponse [])"
      unnamedEvents "demoSource ''/tmp/docker-remote1''" "''/dest/''"]
    unnamed_download [of demoEnv "''http://x/''"
      "downloadCopier (demoFetch ''/'' (plainResponse []))" "demoFetch ''/'' (plainResponse [])"
      unnamedEvents "demoSource ''/tmp/docker-remote1''" "''/dest''"]
  by (simp add: resolve_defs fetch_defs path_defs demo_defs Let_def)

section \<open>Several sources need a directory\<close>

text \<open>
  C3, as the code has it. When the sources of an instruction resolve to more than one
  entry, \<open>createCopyInstruction\<close> returns an error unless the destination ends with
  the path separator, and then it returns the instruction with all entries; with exactly
  one entry it returns the instruction whatever the destination ends with. The rule is
  checked when the instruction is made, after all sources have been resolved: the copier
  returned is the one resolution left, so what resolution did (downloads into temporary
  directories, the read-write layer, stores into the path cache) has happened by then,
  and the check itself does nothing more.
\<close>

theorem multi_source_needs_directory:
  assumes "getCopyInfosForSourcePaths e c (SourcePaths sd) (DestPath sd) = (c1, Inr infs)"
  shows "(1 < length infs \<and> \<not> hasSuffix (DestPath sd) pathSeparator \<longrightarrow>
            createCopyInstruction e c sd name
              = (c1, newInstruction name (DestPath sd),
                 Some (Errorf (''When using '' @ name
                   @ '' with more than one source file, the destination must be a directory and end with a /''))))
       \<and> (1 < length infs \<and> hasSuffix (DestPath sd) pathSeparator \<longrightarrow>
            createCopyInstruction e c sd name
              = (c1, (newInstruction name (DestPath sd))\<lparr> infos := infs \<rparr>, None))
       \<and> (length infs = 1 \<longrightarrow>
            createCopyInstruction e c sd name
              = (c1, (newInstruction name (DestPath sd))\<lparr> infos := infs \<rparr>, None))
       \<and> fst (createCopyInstruction e c sd name) = c1
       \<and> (\<forall>sd' name'. fst (createCopyInstruction e c sd' name')
             = fst (getCopyInfosForSourcePaths e c (SourcePaths sd') (DestPath sd')))"
  using assms
  by (auto simp add: createCopyInstruction_def fromSlash_def newInstruction_def Let_def
      getCopyInfosForSourcePaths_def split: prod.splits sum.splits)

lemma two_sources_resolved:
  "getCopyInfosForSourcePaths demoEnv contextCopier [''file'', ''dir''] d
     = (resolvedContext [HashCall ''/ctx'' ''file'', HashCall ''/ctx'' ''dir'',
          HashCall ''/ctx'' ''dir/a'', HashCall ''/ctx'' ''dir/b''], Inr [fileInfo, dirInfo])"
  by (simp add: resolve_defs path_defs demo_defs)

lemma one_source_resolved:
  "getCopyInfosForSourcePaths demoEnv contextCopier [''file''] d
     = (resolvedContext [HashCall ''/ctx'' ''file''], Inr [fileInfo])"
  by (simp add: resolve_defs path_defs demo_defs)

text \<open>
  C3 at work: \<open>file\<close> and \<open>dir\<close> copied to \<open>/dest\<close> fail, copied to \<open>/dest/\<close>
  they give an instruction with both entries, and \<open>file\<close> alone is accepted for
  \<open>/dest\<close>.
\<close>

theorem multi_source_needs_directory_witness:
  "snd (createCopyInstruction demoEnv contextCopier (twoSources ''/dest'') ''COPY'')
     = (newInstruction ''COPY'' ''/dest'',
        Some (Errorf ''When using COPY with more than one source file, the destination must be a directory and end with a /''))
   \<and> snd (createCopyInstruction demoEnv contextCopier (twoSources ''/dest/'') ''COPY'')
     = ((newInstruction ''COPY'' ''/dest/'')\<lparr> infos := [fileInfo, dirInfo] \<rparr>, None)
   \<and> snd (createCopyInstruction demoEnv contextCopier (oneSource ''/dest'') ''COPY'')
     = ((newInstruction ''COPY'' ''/dest'')\<lparr> infos := [fileInfo] \<rparr>, None)"
proof -
  let ?c2 = "resolvedContext [HashCall ''/ctx'' ''file'', HashCall ''/ctx'' ''dir'',
          HashCall ''/ctx'' ''dir/a'', HashCall ''/ctx'' ''dir/b'']"
  have two: "getCopyInfosForSourcePaths demoEnv contextCopier (SourcePaths (twoSources d))
         (DestPath (twoSources d)) = (?c2, Inr [fileInfo, dirInfo])" for d
    by (simp add: twoSources_def two_sources_resolved)
  have one: "getCopyInfosForSourcePaths demoEnv contextCopier (SourcePaths (oneSource d))
         (DestPath (oneSource d)) = (resolvedContext [HashCall ''/ctx'' ''file''], Inr [fileInfo])"
    for d
    by (simp add: oneSource_def one_source_resolved)
  show ?thesis
    using multi_source_needs_directory [OF two, of "''/dest''" "''COPY''"]
      multi_source_needs_directory [OF two, of "''/dest/''" "''COPY''"]
      multi_source_needs_directory [OF one, of "''/dest''" "''COPY''"]
    by (simp add: twoSources_def oneSource_def path_defs createCopyInstruction_def
        newInstruction_def Let_def two_sources_resolved one_source_resolved)
qed

text \<open>
  C3 as stated fails on its clause that the rule is enforced before any file system
  mutation: for a download and a file copied to \<open>/dest\<close> the error comes after the
  temporary directory was made and the body written to it, and for two files of an image
  after the read-write layer was created and the path cache stored into.
\<close>

theorem construction_after_mutation_counterexample:
  "snd (createCopyInstruction demoEnv (downloadCopier (demoFetch ''/a.tar'' (plainResponse [])))
          (mixedRequest ''/dest'') ''ADD'')
     = (newInstruction ''ADD'' ''/dest'',
        Some (Errorf ''When using ADD with more than one source file, the destination must be a directory and end with a /''))
   \<and> events (fst (createCopyInstruction demoEnv
          (downloadCopier (demoFetch ''/a.tar'' (plainResponse []))) (mixedRequest ''/dest'') ''ADD''))
     = [TempDirCreated ''/tmp/docker-remote1'', FileCreated ''/tmp/docker-remote1/a.tar'',
        FileWritten ''/tmp/docker-remote1/a.tar'' ''data'',
        Chtimes ''/tmp/docker-remote1/a.tar'' zeroTime zeroTime,
        HashCall ''/tmp/docker-remote1'' ''a.tar'', HashCall ''/ctx'' ''file'']
   \<and> snd (createCopyInstruction demoEnv (imageCopier ''sha256:abc'') (layerRequest ''/dest'') ''COPY'')
     = (newInstruction ''COPY'' ''/dest'',
        Some (Errorf ''When using COPY with more than one source file, the destination must be a directory and end with a /''))
   \<and> events (fst (createCopyInstruction demoEnv (imageCopier ''sha256:abc'')
          (layerRequest ''/dest'') ''COPY''))
     = [LayerCreated demoLayer,
        CacheLoad ''sha256:abcdir/a'', HashCall ''/layer'' ''dir/a'',
        CacheStore ''sha256:abcdir/a'' ''file:sum-dir/a'',
        CacheLoad ''sha256:abcdir/b'', HashCall ''/layer'' ''dir/b'',
        CacheStore ''sha256:abcdir/b'' ''file:sum-dir/b'']"
  by (simp add: resolve_defs fetch_defs path_defs demo_defs Let_def)

section \<open>File and directory fingerprints\<close>

text \<open>
  C8, as the code has it. Hashing a path of the build context or of an image gives one
  entry: for a file its fingerprint is \<open>file:\<close> followed by the hash of the source,
  for a directory it is \<open>hashStringSlice\<close> with the kind \<open>dir\<close> over the member
  hashes. A \<open>file:\<close> fingerprint and a \<open>dir\<close> fingerprint are never equal,
  whatever the digests are. The entry of a URL source carries the hash of the
  downloaded file as the source gives it, with no tag, and a hit in the path cache
  returns the stored fingerprint unchanged.
\<close>

theorem file_and_directory_fingerprints_differ:
  "(hashPath e c src p = (c1, Inr infs) \<longrightarrow>
      (\<exists>info. infs = [info]
         \<and> (if src_StatAt src p = Inr True
             then \<exists>subs. snd (walkSource e src p) = Inr subs
                    \<and> ci_hash info = hashStringSlice (digest e) ''dir'' subs
             else ci_hash info = ''file:'' @ fst (src_Hash src p))))
   \<and> (\<forall>h dg subs. ''file:'' @ h \<noteq> hashStringSlice dg ''dir'' subs)
   \<and> (isURL e orig \<and> download c orig = (evs, Inr (remote, q)) \<and> \<not> (q = [] \<and> hasSuffix d ''/'') \<longrightarrow>
        map ci_hash (fst (snd (getCopyInfoForSourcePath e c orig d)))
          = [fst (src_Hash remote (if q = [] then unnamedFilename else q))])
   \<and> (imageSource c = Some im \<and> ImageID im \<noteq> [] \<and> pathCache c (ImageID im @ p) = Some h' \<longrightarrow>
        snd (cachedOrHashed e c src p) = Inr [newCopyInfoFromSource src p h'])"
proof (intro conjI impI allI)
  assume "hashPath e c src p = (c1, Inr infs)"
  then show "\<exists>info. infs = [info]
         \<and> (if src_StatAt src p = Inr True
             then \<exists>subs. snd (walkSource e src p) = Inr subs
                    \<and> ci_hash info = hashStringSlice (digest e) ''dir'' subs
             else ci_hash info = ''file:'' @ fst (src_Hash src p))"
    by (auto simp: hashPath_def copyInfoForFile_def emptyCopyInfo_def newCopyInfoFromSource_def
        Let_def split: sum.splits prod.splits if_splits option.splits)
next
  fix h dg subs
  show "''file:'' @ h \<noteq> hashStringSlice dg ''dir'' subs"
    by (simp add: hashStringSlice_def)
next
  assume "isURL e orig \<and> download c orig = (evs, Inr (remote, q)) \<and> \<not> (q = [] \<and> hasSuffix d ''/'')"
  then show "map ci_hash (fst (snd (getCopyInfoForSourcePath e c orig d)))
          = [fst (src_Hash remote (if q = [] then unnamedFilename else q))]"
    by (auto simp: getCopyInfoForSourcePath_def Let_def newCopyInfoFromSource_def)
next
  assume "imageSource c = Some im \<and> ImageID im \<noteq> [] \<and> pathCache c (ImageID im @ p) = Some h'"
  then show "snd (cachedOrHashed e c src p) = Inr [newCopyInfoFromSource src p h']"
    by (simp add: cachedOrHashed_def Let_def)
qed

lemma cachedCopier_run:
  "imageSource cachedCopier = Some \<lparr> ImageID = ''sha256:abc'', NewRWLayer = Inr demoLayer \<rparr>
   \<and> pathCache cachedCopier ''sha256:abcfile'' = Some ''file:sum-file''"
  by (simp add: cachedCopier_def resolve_defs path_defs demo_defs)

text \<open>
  C8 at work: the file \<open>file\<close> and the directory \<open>dir\<close> of the build context, a
  file fingerprint over the very digest of the directory, the download \<open>a.tar\<close>, and
  \<open>file\<close> resolved against an image a second time.
\<close>

theorem file_and_directory_fingerprints_differ_witness:
  "snd (hashPath demoEnv contextCopier (demoSource ''/ctx'') ''file'') = Inr [fileInfo]
   \<and> snd (hashPath demoEnv contextCopier (demoSource ''/ctx'') ''dir'') = Inr [dirInfo]
   \<and> src_StatAt (demoSource ''/ctx'') ''dir'' = Inr True
   \<and> src_StatAt (demoSource ''/ctx'') ''file'' = Inr False
   \<and> ci_hash fileInfo = ''file:sum-file''
   \<and> ci_hash dirInfo
       = hashStringSlice (digest demoEnv) ''dir'' [''sum-dir'', ''sum-dir/a'', ''sum-dir/b'']
   \<and> ''file:'' @ ''sum-dirsum-dir/asum-dir/b'' \<noteq> ci_hash dirInfo
   \<and> isURL demoEnv ''http://x/a.tar''
   \<and> map ci_hash (fst (snd (getCopyInfoForSourcePath demoEnv
         (downloadCopier (demoFetch ''/a.tar'' (plainResponse []))) ''http://x/a.tar'' ''/dest/'')))
       = [''sum-a.tar'']
   \<and> pathCache cachedCopier ''sha256:abcfile'' = Some ''file:sum-file''
   \<and> snd (cachedOrHashed demoEnv cachedCopier (demoSource ''/layer'') ''file'')
       = Inr [\<lparr> ci_root = ''/layer'', ci_path = ''file'', ci_hash = ''file:sum-file'',
                ci_noDecompress = False \<rparr>]"
proof -
  let ?dc = "downloadCopier (demoFetch ''/a.tar'' (plainResponse []))"
  let ?im = "\<lparr> ImageID = ''sha256:abc'', NewRWLayer = Inr demoLayer \<rparr>"
  have dl: "download ?dc ''http://x/a.tar''
      = ([TempDirCreated ''/tmp/docker-remote1'', FileCreated ''/tmp/docker-remote1/a.tar'',
          FileWritten ''/tmp/docker-remote1/a.tar'' ''data'',
          Chtimes ''/tmp/docker-remote1/a.tar'' zeroTime zeroTime],
         Inr (demoSource ''/tmp/docker-remote1'', ''a.tar''))"
    by (simp add: fetch_defs path_defs demo_defs Let_def)
  show ?thesis
    using file_and_directory_fingerprints_differ [where e = demoEnv and c = contextCopier
        and src = "demoSource ''/ctx''" and p = "''file''"
        and ?c1.0 = "fst (hashPath demoEnv contextCopier (demoSource ''/ctx'') ''file'')"
        and infs = "[fileInfo]"]
      file_and_directory_fingerprints_differ [where e = demoEnv and c = contextCopier
        and src = "demoSource ''/ctx''" and p = "''dir''"
        and ?c1.0 = "fst (hashPath demoEnv contextCopier (demoSource ''/ctx'') ''dir'')"
        and infs = "[dirInfo]"]
      file_and_directory_fingerprints_differ [where e = demoEnv and c = ?dc and orig = "''http://x/a.tar''"
        and remote = "demoSource ''/tmp/docker-remote1''" and q = "''a.tar''" and d = "''/dest/''"
        and evs = "[TempDirCreated ''/tmp/docker-remote1'', FileCreated ''/tmp/docker-remote1/a.tar'',
          FileWritten ''/tmp/docker-remote1/a.tar'' ''data'',
          Chtimes ''/tmp/docker-remote1/a.tar'' zeroTime zeroTime]"]
      file_and_directory_fingerprints_differ [where e = demoEnv and c = cachedCopier and im = ?im
        and src = "demoSource ''/layer''" and p = "''file''" and h' = "''file:sum-file''"]
      dl cachedCopier_run
    by (simp add: resolve_defs fetch_defs path_defs demo_defs Let_def)
qed

text \<open>
  C8 as stated fails for the file of a URL source: the entry of the download
  \<open>a.tar\<close> has the fingerprint \<open>sum-a.tar\<close>, the hash of the source itself, which
  does not begin with \<open>file:\<close>.
\<close>

theorem url_fingerprint_untagged_counterexample:
  "isURL demoEnv ''http://x/a.tar''
   \<and> map ci_hash (fst (snd (getCopyInfoForSourcePath demoEnv
         (downloadCopier (demoFetch ''/a.tar'' (plainResponse []))) ''http://x/a.tar'' ''/dest/'')))
       = [''sum-a.tar'']
   \<and> src_Hash (demoSource ''/tmp/docker-remote1'') ''a.tar'' = (''sum-a.tar'', None)
   \<and> \<not> hasPrefix ''sum-a.tar'' ''file:''"
  by (simp add: resolve_defs fetch_defs path_defs demo_defs Let_def)


section \<open>Normalising the source path\<close>

lemma normalizePath_separator:
  "\<not> hasPrefix p ''/'' \<Longrightarrow> normalizePath (''/'' @ p) = normalizePath p"
  by (simp add: normalizePath_def trimPrefix_def hasPrefix_def fromSlash_def pathSeparator_def)

lemma normalizePath_dot:
  "\<not> hasPrefix p ''/'' \<Longrightarrow> \<not> hasPrefix p ''./'' \<Longrightarrow> normalizePath (''./'' @ p) = normalizePath p"
  by (simp add: normalizePath_def trimPrefix_def hasPrefix_def fromSlash_def pathSeparator_def)

lemma calcCopyInfo_normalized:
  assumes "normalizePath q = normalizePath p"
    and "validateCopySourcePath e (imageSource c) q = validateCopySourcePath e (imageSource c) p"
  shows "calcCopyInfo e c q a = calcCopyInfo e c p a"
  unfolding calcCopyInfo.simps assms ..

text \<open>
  C10, as the code has it. \<open>calcCopyInfo\<close> trims one leading separator and then one
  leading dot and separator. For a path that begins with neither, the path, the path
  behind a separator and the path behind a dot and separator normalise to the path
  itself, and the three resolve alike (result and copier), with or without wildcards,
  where \<open>validateCopySourcePath\<close>, which sees the path as written, treats the three
  alike.
\<close>

theorem prefixed_paths_resolve_alike:
  assumes "\<not> hasPrefix p ''/''" and "\<not> hasPrefix p ''./''"
    and "validateCopySourcePath e (imageSource c) (''/'' @ p)
           = validateCopySourcePath e (imageSource c) p"
    and "validateCopySourcePath e (imageSource c) (''./'' @ p)
           = validateCopySourcePath e (imageSource c) p"
  shows "normalizePath p = p \<and> normalizePath (''/'' @ p) = p \<and> normalizePath (''./'' @ p) = p
       \<and> calcCopyInfo e c (''/'' @ p) allowWildcards = calcCopyInfo e c p allowWildcards
       \<and> calcCopyInfo e c (''./'' @ p) allowWildcards = calcCopyInfo e c p allowWildcards"
proof -
  have n: "normalizePath p = p"
    using assms(1,2)
    by (simp add: normalizePath_def trimPrefix_def hasPrefix_def fromSlash_def pathSeparator_def)
  have s: "normalizePath (''/'' @ p) = normalizePath p"
    using assms(1) by (rule normalizePath_separator)
  have d: "normalizePath (''./'' @ p) = normalizePath p"
    using assms(1,2) by (rule normalizePath_dot)
  show ?thesis
    using n s d assms(3,4) calcCopyInfo_normalized [of "''/'' @ p" p e c allowWildcards]
      calcCopyInfo_normalized [of "''./'' @ p" p e c allowWildcards]
    by simp
qed

text \<open>C10 at work: \<open>file\<close>, \<open>/file\<close> and \<open>./file\<close> resolve alike.\<close>

theorem prefixed_paths_resolve_alike_witness:
  "\<not> hasPrefix ''file'' ''/'' \<and> \<not> hasPrefix ''file'' ''./''
   \<and> snd (calcCopyInfo demoEnv contextCopier ''file'' False) = Inr [fileInfo]
   \<and> calcCopyInfo demoEnv contextCopier ''/file'' False
       = calcCopyInfo demoEnv contextCopier ''file'' False
   \<and> calcCopyInfo demoEnv contextCopier ''./file'' False
       = calcCopyInfo demoEnv contextCopier ''file'' False"
  using prefixed_paths_resolve_alike [of "''file''" demoEnv contextCopier False]
  by (simp add: resolve_defs path_defs demo_defs)

text \<open>
  C10 as stated fails for a path that itself begins with a separator: \<open>/file\<close>
  resolves to the entry with the path \<open>file\<close>, while the same path behind one more
  separator, or behind a dot and separator, resolves to an entry with the path
  \<open>/file\<close>, since only one separator is trimmed.
\<close>

theorem prefixed_paths_counterexample:
  "snd (calcCopyInfo demoEnv contextCopier ''/file'' False) = Inr [fileInfo]
   \<and> snd (calcCopyInfo demoEnv contextCopier (''/'' @ ''/file'') False)
       = Inr [fileInfo\<lparr> ci_path := ''/file'' \<rparr>]
   \<and> snd (calcCopyInfo demoEnv contextCopier (''./'' @ ''/file'') False)
       = Inr [fileInfo\<lparr> ci_path := ''/file'' \<rparr>]
   \<and> fileInfo\<lparr> ci_path := ''/file'' \<rparr> \<noteq> fileInfo"
  by (simp add: resolve_defs path_defs demo_defs)

section \<open>The fingerprint of a directory\<close>

lemma walkSourceFn_accepted:
  "walkAccepted e src es \<Longrightarrow>
     snd (walkSourceFn e src es evs subs) = Inr (subs @ memberFingerprints e src es)"
proof (induction es arbitrary: evs subs)
  case Nil
  then show ?case by (simp add: memberFingerprints_def)
next
  case (Cons ent es)
  obtain p err where ent: "ent = (p, err)" by (cases ent)
  from Cons.prems have acc: "walkAccepted e src es" and none: "err = None"
    and rel: "\<not> isl (filepath_Rel e (src_Root src) p)"
    by (simp_all add: walkAccepted_def ent)
  from rel obtain r where r: "filepath_Rel e (src_Root src) p = Inr r"
    by (cases "filepath_Rel e (src_Root src) p") auto
  show ?case
    using Cons.IH [OF acc] none r
    by (simp add: ent memberFingerprints_def entryFingerprint_def split: prod.splits option.splits)
qed

lemma walkSourceFn_success:
  "snd (walkSourceFn e src es evs subs) = Inr xs \<Longrightarrow> walkAccepted e src es"
proof (induction es arbitrary: evs subs)
  case Nil
  then show ?case by (simp add: walkAccepted_def)
next
  case (Cons ent es)
  obtain p err where ent: "ent = (p, err)" by (cases ent)
  from Cons.prems show ?case
    using Cons.IH
    by (auto simp: ent walkAccepted_def split: option.splits sum.splits prod.splits if_splits)
qed

lemma walkAccepted_mset:
  "mset es2 = mset es1 \<Longrightarrow> walkAccepted e src es2 = walkAccepted e src es1"
proof -
  assume "mset es2 = mset es1"
  then have "set es2 = set es1" by (rule mset_eq_setD)
  then show ?thesis by (simp add: walkAccepted_def list_all_iff)
qed

lemma memberFingerprints_mset:
  assumes "mset es2 = mset es1"
  shows "mset (memberFingerprints e src es2) = mset (memberFingerprints e src es1)"
proof -
  have "mset (memberFingerprints e src es) = sum_mset (image_mset (mset \<circ> entryFingerprint e src) (mset es))" for es
    unfolding memberFingerprints_def by (induction es) simp_all
  then show ?thesis using assms by simp
qed

lemma walkSource_result:
  assumes "src_FullPath src p = Inr fp" and "snd (walkSource e src p) = Inr subs"
  shows "walkAccepted e src (walkDir e fp) \<and> subs = sort (memberFingerprints e src (walkDir e fp))"
proof -
  obtain evs r where w: "walkSourceFn e src (walkDir e fp) [] [] = (evs, r)"
    by (cases "walkSourceFn e src (walkDir e fp) [] []")
  from assms w obtain xs where r: "r = Inr xs" and subs: "subs = sort xs"
    by (auto simp: walkSource_def split: sum.splits)
  from w r have s: "snd (walkSourceFn e src (walkDir e fp) [] []) = Inr xs" by simp
  then have acc: "walkAccepted e src (walkDir e fp)" by (rule walkSourceFn_success)
  from walkSourceFn_accepted [OF acc, of "[]" "[]"] s
  have "xs = memberFingerprints e src (walkDir e fp)" by simp
  with acc subs show ?thesis by simp
qed

lemma walkSource_accepted:
  assumes "src_FullPath src p = Inr fp" and "walkAccepted e src (walkDir e fp)"
  shows "snd (walkSource e src p) = Inr (sort (memberFingerprints e src (walkDir e fp)))"
  using assms walkSourceFn_accepted [OF assms(2), of "[]" "[]"]
  by (auto simp: walkSource_def split: sum.splits prod.splits)

lemma memberFingerprints_env:
  "filepath_Rel e2 = filepath_Rel e1 \<Longrightarrow> memberFingerprints e2 src es = memberFingerprints e1 src es"
proof -
  assume r: "filepath_Rel e2 = filepath_Rel e1"
  have "entryFingerprint e2 src = entryFingerprint e1 src"
    by (rule ext) (simp add: entryFingerprint_def r)
  then show ?thesis by (simp add: memberFingerprints_def)
qed

lemma walkAccepted_env:
  "filepath_Rel e2 = filepath_Rel e1 \<Longrightarrow> walkAccepted e2 src es = walkAccepted e1 src es"
  by (simp add: walkAccepted_def)

lemma walkSource_order:
  assumes "src_FullPath src p = Inr fp"
    and "mset (walkDir e2 fp) = mset (walkDir e1 fp)"
    and "filepath_Rel e2 = filepath_Rel e1"
    and "snd (walkSource e1 src p) = Inr subs"
  shows "snd (walkSource e2 src p) = Inr subs"
proof -
  from walkSource_result [OF assms(1,4)]
  have acc1: "walkAccepted e1 src (walkDir e1 fp)"
    and subs: "subs = sort (memberFingerprints e1 src (walkDir e1 fp))" by simp_all
  have acc2: "walkAccepted e2 src (walkDir e2 fp)"
    using acc1 walkAccepted_mset [OF assms(2), of e2 src] walkAccepted_env [OF assms(3)] by simp
  have "mset (memberFingerprints e2 src (walkDir e2 fp)) = mset (memberFingerprints e1 src (walkDir e1 fp))"
    using memberFingerprints_mset [OF assms(2), of e2 src] memberFingerprints_env [OF assms(3)] by simp
  then have "sort (memberFingerprints e2 src (walkDir e2 fp)) = sort (memberFingerprints e1 src (walkDir e1 fp))"
    by (metis properties_for_sort sorted_sort mset_sort)
  with walkSource_accepted [OF assms(1) acc2] subs show ?thesis by simp
qed

lemma hashPath_order:
  assumes "src_FullPath src p = Inr fp"
    and "mset (walkDir e2 fp) = mset (walkDir e1 fp)"
    and "filepath_Rel e2 = filepath_Rel e1" and "digest e2 = digest e1"
    and "snd (walkSource e1 src p) = Inr subs"
  shows "snd (hashPath e2 c src p) = snd (hashPath e1 c src p)"
proof -
  have w2: "snd (walkSource e2 src p) = Inr subs"
    using assms(1,2,3,5) by (rule walkSource_order)
  obtain ev1 where "walkSource e1 src p = (ev1, Inr subs)"
    using assms(5) by (cases "walkSource e1 src p") auto
  moreover obtain ev2 where "walkSource e2 src p = (ev2, Inr subs)"
    using w2 by (cases "walkSource e2 src p") auto
  ultimately show ?thesis
    using assms(4)
    by (simp add: hashPath_def Let_def split: prod.splits sum.splits)
qed


text \<open>
  C2, as the code has it. For a directory whose walk is accepted, \<open>walkSource\<close>
  returns the sorted list of the hashes of every entry met whose path relative to the
  root of the source is not a dot and whose hash succeeded: the walked directory's own
  entry is left out only when it is the root of the source. The fingerprint is
  \<open>hashStringSlice\<close> with the kind \<open>dir\<close> over that list, so two worlds that
  enumerate the same entries in different orders give the same list, the same
  fingerprint and the same resolved entry.
\<close>

theorem directory_fingerprint_order_independent:
  assumes "src_FullPath src p = Inr fp"
    and "mset (walkDir e2 fp) = mset (walkDir e1 fp)"
    and "filepath_Rel e2 = filepath_Rel e1" and "digest e2 = digest e1"
    and "snd (walkSource e1 src p) = Inr subs"
  shows "subs = sort (memberFingerprints e1 src (walkDir e1 fp))
       \<and> sorted subs
       \<and> snd (walkSource e2 src p) = Inr subs
       \<and> hashStringSlice (digest e2) ''dir'' subs = hashStringSlice (digest e1) ''dir'' subs
       \<and> snd (hashPath e2 c src p) = snd (hashPath e1 c src p)"
proof -
  have subs: "subs = sort (memberFingerprints e1 src (walkDir e1 fp))"
    using walkSource_result [OF assms(1,5)] by simp
  moreover have "sorted subs"
    unfolding subs by simp
  moreover have "snd (walkSource e2 src p) = Inr subs"
    using assms(1,2,3,5) by (rule walkSource_order)
  moreover have "hashStringSlice (digest e2) ''dir'' subs = hashStringSlice (digest e1) ''dir'' subs"
    by (simp add: assms(4))
  moreover have "snd (hashPath e2 c src p) = snd (hashPath e1 c src p)"
    using assms by (rule hashPath_order)
  ultimately show ?thesis by simp
qed

text \<open>
  C2 at work: the directory \<open>dir\<close> walked from its first entry to its last and
  from its last to its first.
\<close>

theorem directory_fingerprint_order_independent_witness:
  "src_FullPath (demoSource ''/ctx'') ''dir'' = Inr ''/ctx/dir''
   \<and> walkDir demoEnv ''/ctx/dir'' = [(''/ctx/dir'', None), (''/ctx/dir/a'', None), (''/ctx/dir/b'', None)]
   \<and> walkDir reversedEnv ''/ctx/dir'' = [(''/ctx/dir/b'', None), (''/ctx/dir/a'', None), (''/ctx/dir'', None)]
   \<and> snd (walkSource demoEnv (demoSource ''/ctx'') ''dir'') = Inr [''sum-dir'', ''sum-dir/a'', ''sum-dir/b'']
   \<and> snd (walkSource reversedEnv (demoSource ''/ctx'') ''dir'') = Inr [''sum-dir'', ''sum-dir/a'', ''sum-dir/b'']
   \<and> snd (hashPath reversedEnv contextCopier (demoSource ''/ctx'') ''dir'') = Inr [dirInfo]
   \<and> snd (hashPath demoEnv contextCopier (demoSource ''/ctx'') ''dir'') = Inr [dirInfo]"
  using directory_fingerprint_order_independent [of "demoSource ''/ctx''" "''dir''" "''/ctx/dir''"
      reversedEnv demoEnv "[''sum-dir'', ''sum-dir/a'', ''sum-dir/b'']" contextCopier]
  by (simp add: resolve_defs path_defs demo_defs)

text \<open>
  C2 as stated fails on the root entry: walking \<open>dir\<close> below the root of the
  source, the list holds the hash of \<open>dir\<close> itself next to the hashes of its two
  files, where the list of all entries but the root entry holds the two files only.
\<close>

theorem directory_root_entry_counterexample:
  "snd (walkSource demoEnv (demoSource ''/ctx'') ''dir'') = Inr [''sum-dir'', ''sum-dir/a'', ''sum-dir/b'']
   \<and> specWalkSource demoEnv (demoSource ''/ctx'') ''dir'' = Inr [''sum-dir/a'', ''sum-dir/b'']
   \<and> src_Hash (demoSource ''/ctx'') ''dir'' = (''sum-dir'', None)"
  by (simp add: resolve_defs path_defs demo_defs)


section \<open>The life of the read-write layer\<close>

lemma layerEvents_append [simp]: "layerEvents (xs @ ys) = layerEvents xs @ layerEvents ys"
  by (simp add: layerEvents_def)

lemma layerEvents_simps [simp]:
  "layerEvents [] = []"
  "layerEvents (LayerCreated l # evs) = LayerCreated l # layerEvents evs"
  "layerEvents (LayerReleased l # evs) = LayerReleased l # layerEvents evs"
  "layerEvents (RemovedAll p # evs) = layerEvents evs"
  "layerEvents (CacheLoad k # evs) = layerEvents evs"
  "layerEvents (CacheStore k v # evs) = layerEvents evs"
  "layerEvents (HashCall r p # evs) = layerEvents evs"
  "layerEvents (TempDirCreated p # evs) = layerEvents evs"
  "layerEvents (FileCreated p # evs) = layerEvents evs"
  "layerEvents (FileWritten p d # evs) = layerEvents evs"
  "layerEvents (Chtimes p a m # evs) = layerEvents evs"
  by (simp_all add: layerEvents_def isLayerEvent_def)

lemma layerStep_refl: "layerStep c c"
  by (simp add: layerStep_def)

lemma layerStep_trans:
  assumes "layerStep a b" and "layerStep b c"
  shows "layerStep a c"
proof -
  from assms(1) obtain e1 where e1: "events b = events a @ e1"
    and s1: "(activeLayer b = activeLayer a \<and> layerEvents e1 = [])
          \<or> (imageSource a \<noteq> None \<and> activeLayer a = None
              \<and> (\<exists>l. activeLayer b = Some l \<and> layerEvents e1 = [LayerCreated l]))"
    and f1: "imageSource b = imageSource a" "download b = download a"
    by (auto simp: layerStep_def)
  from assms(2) obtain e2 where e2: "events c = events b @ e2"
    and s2: "(activeLayer c = activeLayer b \<and> layerEvents e2 = [])
          \<or> (imageSource b \<noteq> None \<and> activeLayer b = None
              \<and> (\<exists>l. activeLayer c = Some l \<and> layerEvents e2 = [LayerCreated l]))"
    and f2: "imageSource c = imageSource b" "download c = download b"
    by (auto simp: layerStep_def)
  have ev: "events c = events a @ (e1 @ e2)" using e1 e2 by simp
  have "(activeLayer c = activeLayer a \<and> layerEvents (e1 @ e2) = [])
          \<or> (imageSource a \<noteq> None \<and> activeLayer a = None
              \<and> (\<exists>l. activeLayer c = Some l \<and> layerEvents (e1 @ e2) = [LayerCreated l]))"
    using s1 s2 f1 by auto
  with ev f1 f2 show ?thesis
    unfolding layerStep_def by (intro conjI exI [of _ "e1 @ e2"]) simp_all
qed

lemma layerStep_events: "layerEvents evs = [] \<Longrightarrow> layerStep c (logEvents c evs)"
  by (auto simp: layerStep_def logEvents_def)

lemma layerStep_store: "layerStep c (storeInPathCache c im p h)"
  by (auto simp: layerStep_def storeInPathCache_def split: option.splits)

lemma layerStep_lazyLayer: "layerStep c (fst (lazyLayer e c))"
  by (auto simp: layerStep_def lazyLayer_def Let_def split: option.splits sum.splits)

lemma copyInfoForFile_quiet: "layerEvents (fst (copyInfoForFile src p)) = []"
  by (auto simp: copyInfoForFile_def split: sum.splits prod.splits option.splits)

lemma walkSourceFn_quiet:
  "layerEvents evs = [] \<Longrightarrow> layerEvents (fst (walkSourceFn e src es evs subs)) = []"
  by (induction e src es evs subs rule: walkSourceFn.induct)
     (auto split: option.splits sum.splits prod.splits)

lemma walkSource_quiet: "layerEvents (fst (walkSource e src p)) = []"
proof (cases "src_FullPath src p")
  case (Inl err)
  then show ?thesis by (simp add: walkSource_def)
next
  case (Inr fp)
  have "layerEvents (fst (walkSourceFn e src (walkDir e fp) [] [])) = []"
    by (rule walkSourceFn_quiet) simp
  with Inr show ?thesis
    by (auto simp: walkSource_def split: prod.splits sum.splits)
qed

lemma layerStep_hashPath: "layerStep c (fst (hashPath e c src p))"
proof -
  obtain ev1 r1 where f: "copyInfoForFile src p = (ev1, r1)" by (cases "copyInfoForFile src p")
  obtain ev2 r2 where w: "walkSource e src p = (ev2, r2)" by (cases "walkSource e src p")
  have q1: "layerEvents ev1 = []" using copyInfoForFile_quiet [of src p] f by simp
  have q2: "layerEvents ev2 = []" using walkSource_quiet [of e src p] w by simp
  have a: "layerStep c (logEvents c ev1)" using q1 by (rule layerStep_events)
  have b: "layerStep c (logEvents c (ev1 @ ev2))" using q1 q2 by (intro layerStep_events) simp
  have sa: "layerStep c (storeInPathCache (logEvents c ev1) im p h)" for im h
    using a layerStep_store by (rule layerStep_trans)
  have sb: "layerStep c (storeInPathCache (logEvents c (ev1 @ ev2)) im p h)" for im h
    using b layerStep_store by (rule layerStep_trans)
  show ?thesis
    using f w a b sa sb
    by (simp add: hashPath_def Let_def split: sum.splits)
qed

lemma layerStep_cachedOrHashed: "layerStep c (fst (cachedOrHashed e c src p))"
proof -
  have l: "layerStep c (logEvents c [CacheLoad k])" for k
    by (rule layerStep_events) simp
  have h: "layerStep c (fst (hashPath e (logEvents c [CacheLoad k]) src p))" for k
    using l layerStep_hashPath by (rule layerStep_trans)
  show ?thesis
    using l h layerStep_hashPath [of c e src p]
    by (simp add: cachedOrHashed_def Let_def split: option.splits)
qed

lemma layerStep_calcCopyInfo:
  "layerStep c (fst (calcCopyInfo e c p a))"
  "layerStep c (fst (copyWithWildcards e c p))"
  "layerStep c (fst (wildcardWalk e c pat root es acc))"
proof (induction e c p a and e c p and e c pat root es acc
       rule: calcCopyInfo_copyWithWildcards_wildcardWalk.induct)
  case (1 e c origPath allowWildcards)
  obtain c1 r where ll: "lazyLayer e c = (c1, r)" by (cases "lazyLayer e c")
  have s1: "layerStep c c1" using layerStep_lazyLayer [of c e] ll by simp
  show ?case
  proof (cases "validateCopySourcePath e (imageSource c) origPath")
    case (Some err)
    then show ?thesis by (simp add: calcCopyInfo.simps layerStep_refl)
  next
    case None
    show ?thesis
    proof (cases r)
      case (Some err)
      with None ll s1 show ?thesis by (simp add: calcCopyInfo.simps)
    next
      case rn: None
      show ?thesis
      proof (cases "source c1")
        case None
        with \<open>validateCopySourcePath e (imageSource c) origPath = None\<close> rn ll s1
        show ?thesis by (simp add: calcCopyInfo.simps)
      next
        case (Some src)
        show ?thesis
        proof (cases "allowWildcards \<and> containsWildcards e (normalizePath origPath)")
          case True
          have "layerStep c1 (fst (copyWithWildcards e c1 (normalizePath origPath)))"
            using "1.IH" [OF \<open>validateCopySourcePath e (imageSource c) origPath = None\<close>
                ll [symmetric] rn Some] True by simp
          with s1 have "layerStep c (fst (copyWithWildcards e c1 (normalizePath origPath)))"
            by (rule layerStep_trans)
          with \<open>validateCopySourcePath e (imageSource c) origPath = None\<close> rn ll Some True
          show ?thesis by (simp add: calcCopyInfo.simps)
        next
          case False
          have "layerStep c (fst (cachedOrHashed e c1 src (normalizePath origPath)))"
            using s1 layerStep_cachedOrHashed by (rule layerStep_trans)
          with \<open>validateCopySourcePath e (imageSource c) origPath = None\<close> rn ll Some False
          show ?thesis by (auto simp add: calcCopyInfo.simps)
        qed
      qed
    qed
  qed
next
  case (2 e c origPath)
  then show ?case
    by (cases "source c") (simp_all add: copyWithWildcards.simps layerStep_refl)
next
  case (3 e c origPath root copyInfos)
  then show ?case by (simp add: layerStep_refl)
next
  case (4 e c origPath root p err rest copyInfos)
  show ?case
  proof (cases err)
    case (Some er)
    then show ?thesis by (simp add: layerStep_refl)
  next
    case None
    show ?thesis
    proof (cases "filepath_Rel e root p")
      case (Inl er)
      with None show ?thesis by (simp add: layerStep_refl)
    next
      case (Inr rel)
      show ?thesis
      proof (cases "rel = ''.''")
        case True
        with None Inr "4.IH"(1) show ?thesis by simp
      next
        case nd: False
        show ?thesis
        proof (cases "filepath_Match e origPath rel")
          case False
          with None Inr nd "4.IH"(2) show ?thesis by simp
        next
          case True
          obtain c1 r where cc: "calcCopyInfo e c rel False = (c1, r)"
            by (cases "calcCopyInfo e c rel False")
          have s1: "layerStep c c1"
            using "4.IH"(3) [OF None Inr nd] True cc by simp
          show ?thesis
          proof (cases r)
            case (Inl er)
            with None Inr nd True cc s1 show ?thesis by simp
          next
            case (Inr subInfos)
            have "layerStep c1 (fst (wildcardWalk e c1 origPath root rest (copyInfos @ subInfos)))"
              using "4.IH"(4) [OF None \<open>filepath_Rel e root p = Inr rel\<close> nd _ cc [symmetric] Inr] True
              by simp
            with s1 have "layerStep c (fst (wildcardWalk e c1 origPath root rest (copyInfos @ subInfos)))"
              by (rule layerStep_trans)
            with None \<open>filepath_Rel e root p = Inr rel\<close> nd True cc Inr show ?thesis by simp
          qed
        qed
      qed
    qed
  qed
qed


lemma download_quiet:
  assumes "d = errOnSourceDownload \<or> d = downloadSource f"
  shows "layerEvents (fst (d u)) = []"
  using assms
  by (auto simp: errOnSourceDownload_def downloadSource_def Let_def
      split: sum.splits option.splits)

lemma layerStep_tmpPaths: "layerStep c c' \<Longrightarrow> layerStep c (c'\<lparr> tmpPaths := t \<rparr>)"
  by (simp add: layerStep_def)

lemma layerStep_getCopyInfoForSourcePath:
  assumes "download c = errOnSourceDownload \<or> download c = downloadSource f"
  shows "layerStep c (fst (getCopyInfoForSourcePath e c orig dst))"
proof (cases "isURL e orig")
  case False
  then show ?thesis
    using layerStep_calcCopyInfo(1) [of c e orig True]
    by (auto simp add: getCopyInfoForSourcePath_def split: prod.splits sum.splits)
next
  case True
  obtain evs r where d: "download c orig = (evs, r)" by (cases "download c orig")
  have q: "layerEvents evs = []" using download_quiet [OF assms, of orig] d by simp
  have a: "layerStep c (logEvents c evs)" using q by (rule layerStep_events)
  have b: "layerStep c (logEvents ((logEvents c evs)\<lparr> tmpPaths := t \<rparr>) [HashCall r' p'])" for t r' p'
    using q by (auto simp: layerStep_def logEvents_def)
  show ?thesis
    using True d a b
    by (simp add: getCopyInfoForSourcePath_def Let_def split: sum.splits prod.splits)
qed

lemma layerStep_sourcePathsLoop:
  assumes "download c = errOnSourceDownload \<or> download c = downloadSource f"
  shows "layerStep c (fst (sourcePathsLoop e c srcs dst infs))"
  using assms
proof (induction srcs arbitrary: c infs)
  case Nil
  then show ?case by (simp add: layerStep_refl)
next
  case (Cons orig rest)
  obtain c1 sub er where g: "getCopyInfoForSourcePath e c orig dst = (c1, sub, er)"
    by (cases "getCopyInfoForSourcePath e c orig dst")
  have s1: "layerStep c c1"
    using layerStep_getCopyInfoForSourcePath [OF Cons.prems, of e orig dst] g by simp
  then have d1: "download c1 = errOnSourceDownload \<or> download c1 = downloadSource f"
    using Cons.prems by (simp add: layerStep_def)
  show ?case
  proof (cases er)
    case (Some err)
    with g s1 show ?thesis by simp
  next
    case None
    have "layerStep c1 (fst (sourcePathsLoop e c1 rest dst (infs @ sub)))"
      using d1 by (rule Cons.IH)
    with s1 have "layerStep c (fst (sourcePathsLoop e c1 rest dst (infs @ sub)))"
      by (rule layerStep_trans)
    with g None show ?thesis by simp
  qed
qed

lemma layerStep_createCopyInstruction:
  assumes "download c = errOnSourceDownload \<or> download c = downloadSource f"
  shows "layerStep c (fst (createCopyInstruction e c sd name))"
  using layerStep_sourcePathsLoop [OF assms, of e "SourcePaths sd" "fromSlash (DestPath sd)" "[]"]
  by (auto simp add: createCopyInstruction_def getCopyInfosForSourcePaths_def newInstruction_def
      Let_def split: prod.splits sum.splits)

lemma layerStep_session:
  assumes "download c = errOnSourceDownload \<or> download c = downloadSource f"
  shows "layerStep c (foldl (\<lambda>c (sd, name). fst (createCopyInstruction e c sd name)) c reqs)"
  using assms
proof (induction reqs arbitrary: c)
  case Nil
  then show ?case by (simp add: layerStep_refl)
next
  case (Cons req reqs)
  obtain sd name where req: "req = (sd, name)" by (cases req)
  let ?c1 = "fst (createCopyInstruction e c sd name)"
  have s1: "layerStep c ?c1" using Cons.prems by (rule layerStep_createCopyInstruction)
  then have "download ?c1 = errOnSourceDownload \<or> download ?c1 = downloadSource f"
    using Cons.prems by (simp add: layerStep_def)
  then have "layerStep ?c1 (foldl (\<lambda>c (sd, name). fst (createCopyInstruction e c sd name)) ?c1 reqs)"
    by (rule Cons.IH)
  with s1 show ?case unfolding req by (simp add: layerStep_trans)
qed

lemma layerStep_invariant:
  assumes "layerStep c c'"
    and "layerEvents (events c) = (case activeLayer c of None \<Rightarrow> [] | Some l \<Rightarrow> [LayerCreated l])"
  shows "layerEvents (events c') = (case activeLayer c' of None \<Rightarrow> [] | Some l \<Rightarrow> [LayerCreated l])"
  using assms by (auto simp: layerStep_def split: option.splits)

lemma layerStep_active:
  assumes "layerStep c c'" and "activeLayer c \<noteq> None \<or> imageSource c = None"
  shows "activeLayer c' = activeLayer c \<and> layerEvents (events c') = layerEvents (events c)"
  using assms by (auto simp: layerStep_def)

text \<open>
  C9. Take a copier with no active layer and no layer event yet, whose downloader is
  one of the two of the code, and create any number of instructions on it (each may
  resolve wildcards and so call \<open>calcCopyInfo\<close> many times). Then the layer events
  are a single creation, of the active layer, or none when there is no active layer: no
  second layer is created and none is released. With a local build context only there
  is no layer. A \<open>calcCopyInfo\<close> on a copier with an active layer creates none.
  \<open>Cleanup\<close> removes every tracked temporary directory and then releases the active
  layer, once, if there is one; after it nothing is tracked and no layer is active, so a
  second \<open>Cleanup\<close>, or a \<open>Cleanup\<close> without a layer, changes nothing.
\<close>

theorem layer_created_once_released_by_cleanup:
  assumes "activeLayer c0 = None" and "layerEvents (events c0) = []"
    and "download c0 = errOnSourceDownload \<or> download c0 = downloadSource f"
    and "c1 = foldl (\<lambda>c (sd, name). fst (createCopyInstruction e c sd name)) c0 reqs"
  shows "layerEvents (events c1) = (case activeLayer c1 of None \<Rightarrow> [] | Some l \<Rightarrow> [LayerCreated l])
       \<and> (imageSource c0 = None \<longrightarrow> activeLayer c1 = None)
       \<and> (activeLayer c \<noteq> None \<longrightarrow>
            layerEvents (events (fst (calcCopyInfo e c p a))) = layerEvents (events c)
            \<and> activeLayer (fst (calcCopyInfo e c p a)) = activeLayer c)
       \<and> events (Cleanup c1)
           = events c1 @ map RemovedAll (tmpPaths c1)
               @ (case activeLayer c1 of None \<Rightarrow> [] | Some l \<Rightarrow> [LayerReleased l])
       \<and> layerEvents (events (Cleanup c1))
           = (case activeLayer c1 of None \<Rightarrow> [] | Some l \<Rightarrow> [LayerCreated l, LayerReleased l])
       \<and> tmpPaths (Cleanup c1) = [] \<and> activeLayer (Cleanup c1) = None
       \<and> Cleanup (Cleanup c1) = Cleanup c1"
proof -
  have step: "layerStep c0 c1"
    unfolding assms(4) using assms(3) by (rule layerStep_session)
  have inv: "layerEvents (events c1) = (case activeLayer c1 of None \<Rightarrow> [] | Some l \<Rightarrow> [LayerCreated l])"
    using step by (rule layerStep_invariant) (simp add: assms(1,2))
  have ctx: "imageSource c0 = None \<longrightarrow> activeLayer c1 = None"
    using layerStep_active [OF step] assms(1) by auto
  have guard: "activeLayer c \<noteq> None \<longrightarrow>
            layerEvents (events (fst (calcCopyInfo e c p a))) = layerEvents (events c)
            \<and> activeLayer (fst (calcCopyInfo e c p a)) = activeLayer c"
    using layerStep_active [OF layerStep_calcCopyInfo(1) [of c e p a]] by auto
  have rm: "layerEvents (map RemovedAll ps) = []" for ps
    by (induction ps) simp_all
  have ev: "events (Cleanup c1)
           = events c1 @ map RemovedAll (tmpPaths c1)
               @ (case activeLayer c1 of None \<Rightarrow> [] | Some l \<Rightarrow> [LayerReleased l])"
    by (simp add: Cleanup_def)
  have lev: "layerEvents (events (Cleanup c1))
           = (case activeLayer c1 of None \<Rightarrow> [] | Some l \<Rightarrow> [LayerCreated l, LayerReleased l])"
    using inv rm by (simp add: ev split: option.splits)
  have idem: "Cleanup (Cleanup c1) = Cleanup c1"
    by (simp add: Cleanup_def)
  show ?thesis
    using inv ctx guard ev lev idem by (simp add: Cleanup_def)
qed


lemma wildcardSession_image:
  "events (wildcardSession (imageCopier ''sha256:abc''))
     = [LayerCreated demoLayer,
        CacheLoad ''sha256:abcdir/a'', HashCall ''/layer'' ''dir/a'',
        CacheStore ''sha256:abcdir/a'' ''file:sum-dir/a'',
        CacheLoad ''sha256:abcdir/b'', HashCall ''/layer'' ''dir/b'',
        CacheStore ''sha256:abcdir/b'' ''file:sum-dir/b'']
   \<and> activeLayer (wildcardSession (imageCopier ''sha256:abc'')) = Some demoLayer
   \<and> tmpPaths (wildcardSession (imageCopier ''sha256:abc'')) = []"
  by (simp add: resolve_defs path_defs demo_defs)

lemma wildcardSession_context:
  "events (wildcardSession contextCopier) = [HashCall ''/ctx'' ''dir/a'', HashCall ''/ctx'' ''dir/b'']
   \<and> activeLayer (wildcardSession contextCopier) = None
   \<and> tmpPaths (wildcardSession contextCopier) = []"
  by (simp add: resolve_defs path_defs demo_defs)

lemma downloadSession_run:
  "events downloadSession
     = [TempDirCreated ''/tmp/docker-remote1'', FileCreated ''/tmp/docker-remote1/a.tar'',
        FileWritten ''/tmp/docker-remote1/a.tar'' ''data'',
        Chtimes ''/tmp/docker-remote1/a.tar'' zeroTime zeroTime,
        HashCall ''/tmp/docker-remote1'' ''a.tar'']
   \<and> activeLayer downloadSession = None
   \<and> tmpPaths downloadSession = [''/tmp/docker-remote1'']"
  by (simp add: resolve_defs fetch_defs path_defs demo_defs Let_def)

text \<open>
  C9 at work: the wildcard \<open>dir/*\<close> resolved against an image creates the layer
  once for its two matches, a later resolution creates none, \<open>Cleanup\<close> releases
  it once and a second \<open>Cleanup\<close> does nothing; against the build context no layer
  event occurs at all; after a download \<open>Cleanup\<close> removes the temporary directory.
\<close>

theorem layer_created_once_released_by_cleanup_witness:
  "layerEvents (events (wildcardSession (imageCopier ''sha256:abc''))) = [LayerCreated demoLayer]
   \<and> activeLayer (wildcardSession (imageCopier ''sha256:abc'')) = Some demoLayer
   \<and> layerEvents (events (fst (calcCopyInfo demoEnv (wildcardSession (imageCopier ''sha256:abc''))
                                  ''file'' False)))
       = [LayerCreated demoLayer]
   \<and> layerEvents (events (Cleanup (wildcardSession (imageCopier ''sha256:abc''))))
       = [LayerCreated demoLayer, LayerReleased demoLayer]
   \<and> Cleanup (Cleanup (wildcardSession (imageCopier ''sha256:abc'')))
       = Cleanup (wildcardSession (imageCopier ''sha256:abc''))
   \<and> imageSource contextCopier = None
   \<and> layerEvents (events (Cleanup (Cleanup (wildcardSession contextCopier)))) = []
   \<and> tmpPaths downloadSession = [''/tmp/docker-remote1'']
   \<and> events (Cleanup downloadSession)
       = events downloadSession @ [RemovedAll ''/tmp/docker-remote1'']
   \<and> tmpPaths (Cleanup downloadSession) = []"
proof -
  let ?f = "demoFetch ''/a.tar'' (plainResponse [])"
  have d1: "activeLayer (downloadCopier ?f) = None"
    and d2: "layerEvents (events (downloadCopier ?f)) = []"
    and d3: "download (downloadCopier ?f) = errOnSourceDownload
             \<or> download (downloadCopier ?f) = downloadSource ?f"
    by (simp_all add: downloadCopier_def contextCopier_def)
  have sd: "downloadSession
          = foldl (\<lambda>c (sd, name). fst (createCopyInstruction demoEnv c sd name))
              (downloadCopier ?f) [(downloadRequest, ''ADD'')]"
    by (simp add: downloadSession_def)
  have i1: "activeLayer (imageCopier ''sha256:abc'') = None"
    and i2: "layerEvents (events (imageCopier ''sha256:abc'')) = []"
    and i3: "download (imageCopier ''sha256:abc'') = errOnSourceDownload
             \<or> download (imageCopier ''sha256:abc'') = downloadSource (demoFetch [] (plainResponse []))"
    by (simp_all add: imageCopier_def)
  have c0: "imageSource contextCopier = None"
    by (simp add: contextCopier_def)
  have c1: "activeLayer contextCopier = None"
    and c2: "layerEvents (events contextCopier) = []"
    and c3: "download contextCopier = errOnSourceDownload
             \<or> download contextCopier = downloadSource (demoFetch [] (plainResponse []))"
    by (simp_all add: contextCopier_def)
  have si: "wildcardSession (imageCopier ''sha256:abc'')
          = foldl (\<lambda>c (sd, name). fst (createCopyInstruction demoEnv c sd name))
              (imageCopier ''sha256:abc'') [(wildcardRequest, ''COPY'')]"
    by (simp add: wildcardSession_def)
  have sc: "wildcardSession contextCopier
          = foldl (\<lambda>c (sd, name). fst (createCopyInstruction demoEnv c sd name))
              contextCopier [(wildcardRequest, ''COPY'')]"
    by (simp add: wildcardSession_def)
  show ?thesis
    using layer_created_once_released_by_cleanup [OF i1 i2 i3 si,
        of "wildcardSession (imageCopier ''sha256:abc'')" "''file''" False]
      layer_created_once_released_by_cleanup [OF c1 c2 c3 sc, of contextCopier "''file''" False]
      layer_created_once_released_by_cleanup [OF d1 d2 d3 sd, of contextCopier "''file''" False]
      wildcardSession_image wildcardSession_context downloadSession_run c0
    by simp
qed


section \<open>The path cache\<close>

text \<open>
  What single-path resolution does with the path cache: it loads only for an image
  source with a non-empty identity, under the identity followed by the path; a hit
  returns the cached hash without any call of \<open>Hash\<close>; it stores only for an image
  source, under the identity followed by the path; with the local build context it
  neither loads nor stores.
\<close>

lemma cache_hit_short_circuits:
  assumes "imageSource c = Some im" and "ImageID im \<noteq> []"
    and "pathCache c (ImageID im @ p) = Some h"
  shows "cachedOrHashed e c src p
           = (logEvents c [CacheLoad (ImageID im @ p)], Inr [newCopyInfoFromSource src p h])"
  using assms by (simp add: cachedOrHashed_def Let_def)

lemma hashPath_cache_use:
  "\<exists>evs. events (fst (hashPath e c src p)) = events c @ evs
     \<and> (\<forall>k. CacheLoad k \<notin> set evs)
     \<and> (\<forall>k v. CacheStore k v \<in> set evs \<longrightarrow>
           (\<exists>im. imageSource c = Some im \<and> k = ImageID im @ p))
     \<and> (imageSource c = None \<longrightarrow> pathCache (fst (hashPath e c src p)) = pathCache c)"
proof -
  obtain ev1 r1 where f: "copyInfoForFile src p = (ev1, r1)" by (cases "copyInfoForFile src p")
  obtain ev2 r2 where w: "walkSource e src p = (ev2, r2)" by (cases "walkSource e src p")
  have q1: "\<forall>k v. CacheLoad k \<notin> set ev1 \<and> CacheStore k v \<notin> set ev1"
    using f by (auto simp: copyInfoForFile_def split: sum.splits prod.splits option.splits if_splits)
  have fn: "\<forall>k v. CacheLoad k \<notin> set evs \<and> CacheStore k v \<notin> set evs \<Longrightarrow>
       \<forall>k v. CacheLoad k \<notin> set (fst (walkSourceFn e src es evs subs))
            \<and> CacheStore k v \<notin> set (fst (walkSourceFn e src es evs subs))" for es evs subs
    by (induction e src es evs subs rule: walkSourceFn.induct)
       (auto split: option.splits sum.splits prod.splits)
  have q2: "\<forall>k v. CacheLoad k \<notin> set ev2 \<and> CacheStore k v \<notin> set ev2"
  proof (cases "src_FullPath src p")
    case (Inl err)
    with w show ?thesis by (simp add: walkSource_def)
  next
    case (Inr fp)
    have "\<forall>k v. CacheLoad k \<notin> set (fst (walkSourceFn e src (walkDir e fp) [] []))
            \<and> CacheStore k v \<notin> set (fst (walkSourceFn e src (walkDir e fp) [] []))"
      by (rule fn) simp
    with Inr w show ?thesis
      by (auto simp: walkSource_def split: prod.splits sum.splits)
  qed
  show ?thesis
    using f w q1 q2
    by (auto simp: hashPath_def Let_def logEvents_def storeInPathCache_def
        split: sum.splits option.splits)
qed

lemma cachedOrHashed_cache_use:
  "\<exists>evs. events (fst (cachedOrHashed e c src p)) = events c @ evs
     \<and> (\<forall>k. CacheLoad k \<in> set evs \<longrightarrow>
           (\<exists>im. imageSource c = Some im \<and> ImageID im \<noteq> [] \<and> k = ImageID im @ p))
     \<and> (\<forall>k v. CacheStore k v \<in> set evs \<longrightarrow>
           (\<exists>im. imageSource c = Some im \<and> k = ImageID im @ p))
     \<and> (imageSource c = None \<longrightarrow> pathCache (fst (cachedOrHashed e c src p)) = pathCache c)"
proof (cases "imageSource c")
  case None
  with hashPath_cache_use [of e c src p] show ?thesis
    by (auto simp: cachedOrHashed_def)
next
  case (Some im)
  show ?thesis
  proof (cases "ImageID im = []")
    case True
    with Some hashPath_cache_use [of e c src p] show ?thesis
      by (auto simp: cachedOrHashed_def)
  next
    case False
    let ?c1 = "logEvents c [CacheLoad (ImageID im @ p)]"
    show ?thesis
    proof (cases "pathCache c (ImageID im @ p)")
      case (Some h)
      with \<open>imageSource c = Some im\<close> False show ?thesis
        by (simp add: cachedOrHashed_def Let_def logEvents_def)
    next
      case None
      from hashPath_cache_use [of e ?c1 src p]
      obtain evs where "events (fst (hashPath e ?c1 src p)) = events ?c1 @ evs"
        and "\<forall>k. CacheLoad k \<notin> set evs"
        and "\<forall>k v. CacheStore k v \<in> set evs \<longrightarrow> (\<exists>im. imageSource ?c1 = Some im \<and> k = ImageID im @ p)"
        by blast
      with \<open>imageSource c = Some im\<close> False None show ?thesis
        by (auto simp: cachedOrHashed_def Let_def logEvents_def
            intro!: exI [of _ "CacheLoad (ImageID im @ p) # evs"])
    qed
  qed
qed


lemma url_source_skips_cache:
  assumes "isURL e orig"
  shows "pathCache (fst (getCopyInfoForSourcePath e c orig dst)) = pathCache c"
  using assms
  by (auto simp: getCopyInfoForSourcePath_def Let_def logEvents_def
      split: prod.splits sum.splits)

text \<open>
  C1 holds but for one case: the load is guarded by a non-empty \<open>ImageID\<close>, the
  store by a non-nil image source only. Resolving \<open>file\<close> against an image whose
  \<open>ImageID\<close> is empty hashes the file and then stores the hash in the path cache,
  under the path alone.
\<close>

theorem cache_store_without_identity:
  "imageSource (imageCopier []) = Some \<lparr> ImageID = [], NewRWLayer = Inr demoLayer \<rparr>
   \<and> events (fst (calcCopyInfo demoEnv (imageCopier []) ''file'' False))
       = [LayerCreated demoLayer, HashCall ''/layer'' ''file'',
          CacheStore ''file'' ''file:sum-file'']
   \<and> pathCache (fst (calcCopyInfo demoEnv (imageCopier []) ''file'' False)) ''file''
       = Some ''file:sum-file''"
  by (simp add: resolve_defs path_defs demo_defs)


end
